theory Spec2Isabelle
  imports Main
begin

section \<open>Go primitives used by the client\<close>

text \<open>
  Go strings are byte sequences; they are modelled as \<^typ>\<open>string\<close> (a list of
  \<^typ>\<open>char\<close>, one per byte). A run-time panic of the Go program is a value of type
  \<open>panic\<close>; a function that can panic returns \<open>panic + 'a\<close>.
\<close>

datatype panic = SliceBoundsOutOfRange | CloseOfClosedChannel

text \<open>\<^verbatim>\<open>strings.HasPrefix(s, p)\<close>.\<close>

definition HasPrefix :: "string \<Rightarrow> string \<Rightarrow> bool" where
  "HasPrefix s p = (take (length p) s = p)"

text \<open>\<^verbatim>\<open>s[n:]\<close> and \<^verbatim>\<open>s[:n]\<close>: Go panics when the bound exceeds the length.\<close>

definition slice_from :: "string \<Rightarrow> nat \<Rightarrow> panic + string" where
  "slice_from s n = (if n \<le> length s then Inr (drop n s) else Inl SliceBoundsOutOfRange)"

definition slice_to :: "string \<Rightarrow> nat \<Rightarrow> panic + string" where
  "slice_to s n = (if n \<le> length s then Inr (take n s) else Inl SliceBoundsOutOfRange)"

text \<open>
  \<^verbatim>\<open>strings.Split(s, sep)\<close> for a one-byte separator: every occurrence of the separator
  ends a piece, so the result always has at least one piece and \<^verbatim>\<open>Split("", " ")\<close> is
  one empty string. (The \<open>[]\<close> branch of the case below is never taken, see
  \<open>Split_not_Nil\<close>.)
\<close>

fun Split :: "string \<Rightarrow> char \<Rightarrow> string list" where
  "Split [] sep = [[]]"
| "Split (c # cs) sep =
     (if c = sep then [] # Split cs sep
      else (case Split cs sep of [] \<Rightarrow> [[c]] | p # ps \<Rightarrow> (c # p) # ps))"

text \<open>
  \<^verbatim>\<open>strings.SplitN(s, sep, 2)\<close> for a one-byte separator: the string is cut at the first
  separator only; without a separator the result is the one piece \<open>s\<close>.
\<close>

fun SplitN2 :: "string \<Rightarrow> char \<Rightarrow> string list" where
  "SplitN2 [] sep = [[]]"
| "SplitN2 (c # cs) sep =
     (if c = sep then [[], cs]
      else (case SplitN2 cs sep of [] \<Rightarrow> [[c]] | p # ps \<Rightarrow> (c # p) # ps))"

text \<open>\<^verbatim>\<open>strings.Join(parts, sep)\<close>.\<close>

fun Join :: "string list \<Rightarrow> string \<Rightarrow> string" where
  "Join [] sep = []"
| "Join [p] sep = p"
| "Join (p # q # ps) sep = p @ sep @ Join (q # ps) sep"

text \<open>\<^verbatim>\<open>strings.Index(s, b)\<close> for a one-byte pattern: the first position, or \<open>-1\<close>.\<close>

fun Index :: "string \<Rightarrow> char \<Rightarrow> int" where
  "Index [] b = - 1"
| "Index (c # cs) b =
     (if c = b then 0 else (let i = Index cs b in if i = - 1 then - 1 else i + 1))"

text \<open>
  \<^verbatim>\<open>strings.ToUpper\<close> and \<^verbatim>\<open>strings.TrimSpace\<close> work on bytes as long as the string is
  ASCII (every byte below \<^verbatim>\<open>0x80\<close>, Go's \<^verbatim>\<open>utf8.RuneSelf\<close>) and otherwise decode UTF-8 and
  consult the Unicode tables of Go's standard library. Those tables are not part of the
  repository: what the two functions return for a string with a byte outside ASCII is
  taken as a parameter, the record \<open>go_unicode\<close>, and every property below holds for
  every value of it. Go's \<^verbatim>\<open>ToUpper\<close> writes at least one byte for each rune of its input,
  valid or not, so its result for such a (non-empty) string is not empty: the parameter
  gives the first byte of the result and the rest.
\<close>

record go_unicode =
  unicode_ToUpper :: "string \<Rightarrow> char \<times> string"
  unicode_TrimSpace :: "string \<Rightarrow> string"

definition is_ascii :: "char \<Rightarrow> bool" where
  "is_ascii c = (\<not> digit7 c)"

text \<open>
  \<^verbatim>\<open>strings.ToUpper\<close>: on an ASCII string the bytes \<open>a\<close> to \<open>z\<close> are mapped to \<open>A\<close> to
  \<open>Z\<close> and every other byte is kept.
\<close>

definition upper_byte :: "char \<Rightarrow> char" where
  "upper_byte c =
     (case map_of (zip ''abcdefghijklmnopqrstuvwxyz'' ''ABCDEFGHIJKLMNOPQRSTUVWXYZ'') c of
        None \<Rightarrow> c | Some u \<Rightarrow> u)"

definition ToUpper :: "go_unicode \<Rightarrow> string \<Rightarrow> string" where
  "ToUpper lib s =
     (if list_all is_ascii s then map upper_byte s
      else fst (unicode_ToUpper lib s) # snd (unicode_ToUpper lib s))"

text \<open>
  \<^verbatim>\<open>strings.TrimSpace\<close>: on an ASCII string leading and trailing space, tab, newline,
  vertical tab, form feed and carriage return are removed.
\<close>

definition is_space :: "char \<Rightarrow> bool" where
  "is_space c = (c \<in> set [CHR '' '', CHR 0x09, CHR 0x0A, CHR 0x0B, CHR 0x0C, CHR 0x0D])"

definition TrimSpace :: "go_unicode \<Rightarrow> string \<Rightarrow> string" where
  "TrimSpace lib s =
     (if list_all is_ascii s then rev (dropWhile is_space (rev (dropWhile is_space s)))
      else unicode_TrimSpace lib s)"

text \<open>\<^verbatim>\<open>strings.TrimLeft(s, cutset)\<close> for an ASCII cutset.\<close>

definition TrimLeft :: "string \<Rightarrow> string \<Rightarrow> string" where
  "TrimLeft s cutset = dropWhile (\<lambda>c. c \<in> set cutset) s"

section \<open>Line codec: \<^verbatim>\<open>parseLine\<close> (irc.go)\<close>

record Line =
  Nick :: string
  Src :: string
  Cmd :: string
  Args :: "string list"

text \<open>
  The argument loop of \<^verbatim>\<open>parseLine\<close>: \<open>parts\<close> is \<^verbatim>\<open>parts[i:]\<close> and \<open>args\<close> is
  \<^verbatim>\<open>line.Args\<close> so far. A piece starting with \<open>:\<close> takes the rest of the pieces, joined
  by spaces, without its first byte, and ends the loop.
\<close>

fun parseArgs :: "string list \<Rightarrow> string list \<Rightarrow> panic + string list" where
  "parseArgs [] args = Inr args"
| "parseArgs (p # ps) args =
     (if HasPrefix p '':'' then
        (case slice_from (Join (p # ps) '' '') 1 of
           Inl e \<Rightarrow> Inl e
         | Inr trailing \<Rightarrow> Inr (args @ [trailing]))
      else parseArgs ps (args @ [p]))"

text \<open>
  The second half of \<^verbatim>\<open>parseLine\<close> ("Parse command and parameters"), run on the line
  without its prefix.
\<close>

definition parseCommand :: "go_unicode \<Rightarrow> Line \<Rightarrow> string \<Rightarrow> panic + Line" where
  "parseCommand lib line raw =
     (let parts = Split raw CHR '' '' in
      if length parts = 0 then Inr line
      else
        (case parseArgs (tl parts) (Args line) of
           Inl e \<Rightarrow> Inl e
         | Inr args \<Rightarrow> Inr (line\<lparr>Cmd := ToUpper lib (hd parts), Args := args\<rparr>)))"

definition parseLine :: "go_unicode \<Rightarrow> string \<Rightarrow> panic + Line" where
  "parseLine lib raw =
     (let line = \<lparr>Nick = '''', Src = '''', Cmd = '''', Args = []\<rparr> in
      if HasPrefix raw '':'' then
        (case slice_from raw 1 of
           Inl e \<Rightarrow> Inl e
         | Inr rest \<Rightarrow>
             (let parts = SplitN2 rest CHR '' '' in
              if length parts < 2 then Inr line
              else
                (let line1 = line\<lparr>Src := parts ! 0\<rparr>;
                     idx = Index (Src line1) CHR ''!'' in
                 if idx \<noteq> - 1 then
                   (case slice_to (Src line1) (nat idx) of
                      Inl e \<Rightarrow> Inl e
                    | Inr nick \<Rightarrow> parseCommand lib (line1\<lparr>Nick := nick\<rparr>) (parts ! 1))
                 else parseCommand lib line1 (parts ! 1))))
      else parseCommand lib line raw)"

section \<open>Connection state (irc.go)\<close>

text \<open>
  What the connection does to the outside is recorded, in program order, as a list of
  events: every call on the buffered writer and on the transport, every call of the debug
  hook, every goroutine started for a handler, every line printed on standard error, and
  every write to the \<^verbatim>\<open>connected\<close> flag and to the two channels. Handlers and the debug hook
  are opaque callbacks; \<open>'h\<close> is the type of their identities.
\<close>

datatype 'h event =
    DebugSend 'h string
  | WriteString string
  | Flush
  | Stderr string
  | Spawn 'h Line
  | SetConnected bool
  | CloseQuit
  | CloseDone
  | ConnClose

text \<open>
  The two errors \<^verbatim>\<open>sendRaw\<close> can return: its own \<^verbatim>\<open>"not connected"\<close>, and whatever the
  writer reports (with the writer's message).
\<close>

datatype error = NotConnected | WriterError string

fun error_text :: "error \<Rightarrow> string" where
  "error_text NotConnected = ''not connected''"
| "error_text (WriterError msg) = msg"

text \<open>
  The transport is outside the program: what the buffered writer answers to the one
  \<^verbatim>\<open>WriteString\<close> and the one \<^verbatim>\<open>Flush\<close> of a \<^verbatim>\<open>sendRaw\<close> call is an argument of the model.
\<close>

datatype io_result = IoOk | WriteFails string | FlushFails string

datatype transport = Open | Closed

text \<open>
  \<^verbatim>\<open>Config\<close>, with the fields the connection reads (the field names carry a prefix because
  \<^verbatim>\<open>Line\<close> has a \<^verbatim>\<open>Nick\<close> field too).
\<close>

record Config =
  cfg_Nick :: string
  cfg_User :: string
  cfg_RealName :: string
  cfg_Server :: string
  cfg_SSL :: bool

text \<open>
  \<^verbatim>\<open>Conn\<close>. \<open>conn\<close> is \<open>None\<close> for Go's \<^verbatim>\<open>nil\<close>; the reader and the writer are created
  together with \<open>conn\<close>, before \<^verbatim>\<open>connected\<close> is first set, and have no field of their own
  (see \<open>connected_has_transport\<close>). \<open>handlers\<close> is Go's
  \<^verbatim>\<open>map[string][]func\<close>, read with the empty list for a missing key as Go does. The
  channels \<^verbatim>\<open>quit\<close> and \<^verbatim>\<open>done\<close> carry no values: their state is whether they are closed.
  \<open>trace\<close> is the event list described above.
\<close>

record 'h Conn =
  cfg :: Config
  conn :: "transport option"
  connected :: bool
  handlers :: "string \<Rightarrow> 'h list"
  quit_closed :: bool
  done_closed :: bool
  debugSendFn :: "'h option"
  trace :: "'h event list"

definition emit :: "'h Conn \<Rightarrow> 'h event list \<Rightarrow> 'h Conn" where
  "emit c evs = c\<lparr>trace := trace c @ evs\<rparr>"

definition Client :: "Config \<Rightarrow> 'h Conn" where
  "Client config =
     \<lparr>cfg = config, conn = None, connected = False, handlers = (\<lambda>event. []),
      quit_closed = False, done_closed = False, debugSendFn = None, trace = []\<rparr>"

definition HandleFunc :: "'h Conn \<Rightarrow> string \<Rightarrow> 'h \<Rightarrow> 'h Conn" where
  "HandleFunc c event handler = c\<lparr>handlers := (handlers c)(event := handlers c event @ [handler])\<rparr>"

definition SetDebugSend :: "'h Conn \<Rightarrow> 'h option \<Rightarrow> 'h Conn" where
  "SetDebugSend c fn = c\<lparr>debugSendFn := fn\<rparr>"

definition Connected :: "'h Conn \<Rightarrow> bool" where
  "Connected c = connected c"

definition CRLF :: string where
  "CRLF = [CHR 0x0D, CHR 0x0A]"

text \<open>
  \<^verbatim>\<open>sendRaw\<close>: the returned error (\<open>None\<close> for \<^verbatim>\<open>nil\<close>) and the connection afterwards.
\<close>

definition sendRaw :: "'h Conn \<Rightarrow> string \<Rightarrow> io_result \<Rightarrow> error option \<times> 'h Conn" where
  "sendRaw c cmd io =
     (if \<not> connected c then (Some NotConnected, c)
      else
        (let c1 = (case debugSendFn c of None \<Rightarrow> c | Some fn \<Rightarrow> emit c [DebugSend fn cmd]);
             c2 = emit c1 [WriteString (cmd @ CRLF)]
         in case io of
              WriteFails msg \<Rightarrow> (Some (WriterError msg), c2)
            | FlushFails msg \<Rightarrow> (Some (WriterError msg), emit c2 [Flush])
            | IoOk \<Rightarrow> (None, emit c2 [Flush])))"

text \<open>
  \<^verbatim>\<open>Raw\<close>, \<^verbatim>\<open>Join\<close>, \<^verbatim>\<open>Part\<close> and \<^verbatim>\<open>Privmsg\<close> are declared without a result: each calls
  \<^verbatim>\<open>sendRaw\<close> and drops what it returns, so the model returns the connection only.
\<close>

definition Raw :: "'h Conn \<Rightarrow> string \<Rightarrow> io_result \<Rightarrow> 'h Conn" where
  "Raw c cmd io = snd (sendRaw c cmd io)"

definition Join_cmd :: "'h Conn \<Rightarrow> string \<Rightarrow> io_result \<Rightarrow> 'h Conn" where
  "Join_cmd c channel io = snd (sendRaw c (''JOIN '' @ channel) io)"

definition Part :: "'h Conn \<Rightarrow> string \<Rightarrow> io_result \<Rightarrow> 'h Conn" where
  "Part c channel io = snd (sendRaw c (''PART '' @ channel) io)"

definition Privmsg :: "'h Conn \<Rightarrow> string \<Rightarrow> string \<Rightarrow> io_result \<Rightarrow> 'h Conn" where
  "Privmsg c target message io = snd (sendRaw c (''PRIVMSG '' @ target @ '' :'' @ message) io)"

text \<open>
  \<^verbatim>\<open>dispatch\<close>. The PONG is sent by a call of \<^verbatim>\<open>sendRaw\<close> that returns before the registry
  is read; a failure is printed on standard error and nothing else. Each handler is
  started as a goroutine, the handlers of the event first, then those of \<^verbatim>\<open>"*"\<close>.
\<close>

definition dispatch :: "'h Conn \<Rightarrow> string \<Rightarrow> Line \<Rightarrow> io_result \<Rightarrow> 'h Conn" where
  "dispatch c event line io =
     (let c1 =
        (if event = ''PING'' then
           (let pongCmd = (if length (Args line) > 0 then ''PONG :'' @ Args line ! 0 else ''PONG'');
                r = sendRaw c pongCmd io
            in case fst r of
                 None \<Rightarrow> snd r
               | Some err \<Rightarrow>
                   emit (snd r) [Stderr (''Failed to send PONG: '' @ error_text err @ [CHR 0x0A])])
         else c);
        hs = handlers c1 event;
        wildcardHandlers = handlers c1 ''*''
      in emit c1 (map (\<lambda>handler. Spawn handler line) hs
                  @ map (\<lambda>handler. Spawn handler line) wildcardHandlers))"

text \<open>
  The deferred calls of \<^verbatim>\<open>readLoop\<close>, in the order Go runs them (last deferred first):
  clear the flag, dispatch the synthetic line, close \<^verbatim>\<open>done\<close>. Closing a closed channel
  panics. (\<^verbatim>\<open>dispatch\<close> sends nothing for an event other than PING, so the writer's answer
  passed to it here is never read.)
\<close>

definition DISCONNECTED_line :: Line where
  "DISCONNECTED_line = \<lparr>Nick = [], Src = [], Cmd = ''DISCONNECTED'', Args = []\<rparr>"

definition readLoop_deferred :: "'h Conn \<Rightarrow> panic + 'h Conn" where
  "readLoop_deferred c =
     (let c1 = emit (c\<lparr>connected := False\<rparr>) [SetConnected False];
          c2 = dispatch c1 ''DISCONNECTED'' DISCONNECTED_line IoOk
      in if done_closed c2 then Inl CloseOfClosedChannel
         else Inr (emit (c2\<lparr>done_closed := True\<rparr>) [CloseDone]))"

text \<open>
  \<^verbatim>\<open>Connect\<close>. The dial is outside the program; its outcome is an argument, as are the
  writer's answers to the two handshake lines. On success the read loop is started as a
  goroutine: it is \<open>readLoop\<close> below, run on the connection returned here.
\<close>

datatype dial_result = DialOk | DialFails string

definition Connect ::
  "'h Conn \<Rightarrow> dial_result \<Rightarrow> io_result \<Rightarrow> io_result \<Rightarrow> string option \<times> 'h Conn" where
  "Connect c dial io1 io2 =
     (case dial of
        DialFails msg \<Rightarrow> (Some (''failed to connect: '' @ msg), c)
      | DialOk \<Rightarrow>
          (let c1 = c\<lparr>conn := Some Open\<rparr>;
               c2 = emit (c1\<lparr>connected := True\<rparr>) [SetConnected True];
               c3 = snd (sendRaw c2 (''NICK '' @ cfg_Nick (cfg c2)) io1);
               c4 = snd (sendRaw c3
                      (''USER '' @ cfg_User (cfg c3) @ '' 0 * :'' @ cfg_RealName (cfg c3)) io2)
           in (None, c4)))"

text \<open>
  \<^verbatim>\<open>readLoop\<close>. What the loop meets is outside the program and given as a list, one
  entry per completed iteration: the read times out, the read fails, or the read returns
  a line (together with the writer's answer, should the line be a PING). \<open>QuitCloses\<close>
  stands for another goroutine closing \<^verbatim>\<open>quit\<close> before the next iteration. When the list
  is used up the loop is still running: it waits in a read, or in a send that does not
  return. The loop can end by returning or, in principle, by a panic of \<^verbatim>\<open>parseLine\<close>;
  the deferred calls run in both cases. The loop is started by \<^verbatim>\<open>Connect\<close> only, on a
  connection whose transport and reader exist.
\<close>

datatype read_event = ReadTimeout | ReadError | ReadLine string io_result | QuitCloses

datatype 'h loop_result = Running "'h Conn" | Exited "'h Conn" | Crashed panic "'h Conn"

definition loop_exit :: "'h Conn \<Rightarrow> 'h loop_result" where
  "loop_exit c =
     (case readLoop_deferred c of
        Inr c' \<Rightarrow> Exited c'
      | Inl p \<Rightarrow> Crashed p (dispatch (emit (c\<lparr>connected := False\<rparr>) [SetConnected False])
                               ''DISCONNECTED'' DISCONNECTED_line IoOk))"

fun readLoop :: "go_unicode \<Rightarrow> 'h Conn \<Rightarrow> read_event list \<Rightarrow> 'h loop_result" where
  "readLoop lib c [] = (if quit_closed c then loop_exit c else Running c)"
| "readLoop lib c (ev # evs) =
     (if quit_closed c then loop_exit c
      else
        (case ev of
           ReadTimeout \<Rightarrow> readLoop lib c evs
         | ReadError \<Rightarrow> loop_exit c
         | QuitCloses \<Rightarrow> readLoop lib (c\<lparr>quit_closed := True\<rparr>) evs
         | ReadLine got io \<Rightarrow>
             (let line = TrimSpace lib got in
              if line = [] then readLoop lib c evs
              else
                (case parseLine lib line of
                   Inl p \<Rightarrow>
                     (case loop_exit c of
                        Exited c' \<Rightarrow> Crashed p c'
                      | other \<Rightarrow> other)
                 | Inr parsed \<Rightarrow> readLoop lib (dispatch c (Cmd parsed) parsed io) evs))))"

text \<open>
  \<^verbatim>\<open>Quit\<close>. Its first step is a call of \<^verbatim>\<open>sendRaw\<close>. On a connected connection that call
  runs the debug hook, the write and the flush, none of which has a deadline: against a
  peer that does not read, the write blocks and \<^verbatim>\<open>sendRaw\<close>, and with it \<^verbatim>\<open>Quit\<close>, never
  returns. The outcome of the send is therefore either an answer of the writer or
  \<open>NeverReturns\<close>; on a connection that is not connected \<^verbatim>\<open>sendRaw\<close> returns before any
  of the calls and the outcome is not consulted.

  Between closing \<^verbatim>\<open>quit\<close> and closing the transport, \<^verbatim>\<open>Quit\<close> waits in a \<^verbatim>\<open>select\<close> on
  \<^verbatim>\<open>done\<close> and a two-second timer. What the read loop does in the meantime is an
  argument: either it runs its deferred calls (\<open>LoopExits\<close>), or the wait ends without
  that (\<open>TimerFires\<close>). When \<^verbatim>\<open>done\<close> is closed already the \<^verbatim>\<open>select\<close> does not wait.
  \<^verbatim>\<open>close(c.quit)\<close> panics when the channel is closed already.
\<close>

datatype send_outcome = Answers io_result | NeverReturns

datatype wait_outcome = LoopExits | TimerFires

datatype 'h quit_result = QuitReturns "'h Conn" | QuitPanics panic | QuitHangs

definition Quit :: "'h Conn \<Rightarrow> string \<Rightarrow> send_outcome \<Rightarrow> wait_outcome \<Rightarrow> 'h quit_result" where
  "Quit c message send w =
     (case (if connected c then send else Answers IoOk) of
        NeverReturns \<Rightarrow> QuitHangs
      | Answers io \<Rightarrow>
          (let c1 = (if message = [] then snd (sendRaw c ''QUIT'' io)
                     else snd (sendRaw c (''QUIT :'' @ message) io))
           in if quit_closed c1 then QuitPanics CloseOfClosedChannel
              else
                (let c2 = emit (c1\<lparr>quit_closed := True\<rparr>) [CloseQuit];
                     waited = (if done_closed c2 then Inr c2
                               else (case w of
                                       TimerFires \<Rightarrow> Inr c2
                                     | LoopExits \<Rightarrow> readLoop_deferred c2))
                 in case waited of
                      Inl p \<Rightarrow> QuitPanics p
                    | Inr c3 \<Rightarrow>
                        (case conn c3 of
                           None \<Rightarrow> QuitReturns c3
                         | Some t \<Rightarrow> QuitReturns (emit (c3\<lparr>conn := Some Closed\<rparr>) [ConnClose])))))"

text \<open>
  The writer exists whenever the flag is set: \<^verbatim>\<open>connected\<close> is set only by \<^verbatim>\<open>Connect\<close>,
  after the dial, and the transport, once dialled, is never reset to \<^verbatim>\<open>nil\<close>. This is
  the invariant under which \<^verbatim>\<open>sendRaw\<close> can use the writer.
\<close>

definition has_transport :: "'h Conn \<Rightarrow> bool" where
  "has_transport c = (connected c \<longrightarrow> conn c \<noteq> None)"

section \<open>Channel user lists: \<^verbatim>\<open>handleNames\<close> and \<^verbatim>\<open>handleEndOfNames\<close> (main.go)\<close>

text \<open>
  Of the UI model only \<^verbatim>\<open>channelUsers\<close> is kept (Go's \<^verbatim>\<open>map[string][]string\<close>); the
  views redrawn by \<^verbatim>\<open>updateSidebars\<close> are not modelled. An event's data is a
  \<^verbatim>\<open>map[string]string\<close>, read with the empty string for a missing key as Go does.
\<close>

record model =
  channelUsers :: "string \<rightharpoonup> string list"

definition data_get :: "(string \<rightharpoonup> string) \<Rightarrow> string \<Rightarrow> string" where
  "data_get data key = (case data key of None \<Rightarrow> [] | Some v \<Rightarrow> v)"

definition handleNames :: "model \<Rightarrow> (string \<rightharpoonup> string) \<Rightarrow> model" where
  "handleNames m data =
     (let channel = data_get data ''channel'';
          names = Split (data_get data ''users'') CHR '' ''
      in case channelUsers m channel of
           Some existing \<Rightarrow> m\<lparr>channelUsers := (channelUsers m)(channel \<mapsto> existing @ names)\<rparr>
         | None \<Rightarrow> m\<lparr>channelUsers := (channelUsers m)(channel \<mapsto> names)\<rparr>)"

text \<open>
  The loop of \<^verbatim>\<open>handleEndOfNames\<close>: \<open>cleaned\<close> is the \<^verbatim>\<open>map[string]bool\<close> of names seen,
  \<open>cleanedList\<close> the list built so far.
\<close>

fun cleanUsers :: "string list \<Rightarrow> (string \<Rightarrow> bool) \<Rightarrow> string list \<Rightarrow> string list" where
  "cleanUsers [] cleaned cleanedList = cleanedList"
| "cleanUsers (user # users) cleaned cleanedList =
     (let cleanUser = TrimLeft user ''@+%~&'' in
      if cleanUser \<noteq> [] \<and> \<not> cleaned cleanUser
      then cleanUsers users (cleaned(cleanUser := True)) (cleanedList @ [cleanUser])
      else cleanUsers users cleaned cleanedList)"

definition handleEndOfNames :: "model \<Rightarrow> (string \<rightharpoonup> string) \<Rightarrow> model" where
  "handleEndOfNames m data =
     (let channel = data_get data ''channel'' in
      case channelUsers m channel of
        Some users \<Rightarrow>
          m\<lparr>channelUsers := (channelUsers m)(channel \<mapsto> cleanUsers users (\<lambda>name. False) [])\<rparr>
      | None \<Rightarrow> m)"

section \<open>Examples\<close>

text \<open>
  Values used to instantiate the theorems below. \<open>example_unicode\<close> is one value of the
  library parameter; the examples are ASCII, where it is not consulted.
  \<open>example_client\<close> has a debug hook, a PING handler, a wildcard handler and a
  DISCONNECTED handler and has not connected; \<open>example_conn\<close> is the same after a
  successful \<^verbatim>\<open>Connect\<close>; \<open>example_after_quit\<close> is \<open>example_conn\<close> after a \<^verbatim>\<open>Quit\<close> during
  whose wait the read loop exited.
\<close>

definition example_unicode :: go_unicode where
  "example_unicode = \<lparr>unicode_ToUpper = (\<lambda>s. (hd s, tl s)), unicode_TrimSpace = (\<lambda>s. s)\<rparr>"

definition example_cfg :: Config where
  "example_cfg = \<lparr>cfg_Nick = ''me'', cfg_User = ''me'', cfg_RealName = ''me'',
                   cfg_Server = ''irc.example:6667'', cfg_SSL = False\<rparr>"

definition example_client :: "nat Conn" where
  "example_client =
     HandleFunc (HandleFunc (HandleFunc (SetDebugSend (Client example_cfg) (Some 0))
       ''PING'' 1) ''*'' 2) ''DISCONNECTED'' 3"

definition example_conn :: "nat Conn" where
  "example_conn = snd (Connect example_client DialOk IoOk IoOk)"

definition example_after_quit :: "nat Conn" where
  "example_after_quit =
     (case Quit example_conn ''Goodbye!'' (Answers IoOk) LoopExits of
        QuitReturns c \<Rightarrow> c
      | QuitPanics p \<Rightarrow> example_conn
      | QuitHangs \<Rightarrow> example_conn)"

text \<open>
  A connection used twice: \<open>example_disconnected\<close> is \<open>example_conn\<close> after its read
  loop ended on a read error, \<open>example_reconnected\<close> is that connection after a second
  successful \<^verbatim>\<open>Connect\<close>, and \<open>example_second_exit\<close> is where the second read loop leaves
  it when its read fails.
\<close>

definition example_disconnected :: "nat Conn" where
  "example_disconnected =
     (case readLoop example_unicode example_conn [ReadError] of
        Exited c \<Rightarrow> c
      | Running c \<Rightarrow> c
      | Crashed p c \<Rightarrow> c)"

definition example_reconnected :: "nat Conn" where
  "example_reconnected = snd (Connect example_disconnected DialOk IoOk IoOk)"

definition example_second_exit :: "nat Conn" where
  "example_second_exit =
     (case readLoop example_unicode example_reconnected [ReadError] of
        Exited c \<Rightarrow> c
      | Running c \<Rightarrow> c
      | Crashed p c \<Rightarrow> c)"

text \<open>
  Two UI models: one without any channel, one in which the names of \<^verbatim>\<open>#chan\<close> have
  arrived with mode prefixes, an empty name and a repetition.
\<close>

definition example_model :: model where
  "example_model = \<lparr>channelUsers = Map.empty\<rparr>"

definition example_model_names :: model where
  "example_model_names =
     \<lparr>channelUsers = [''#chan'' \<mapsto> [''@alice'', ''+bob'', ''alice'', [], ''~&carol'']]\<rparr>"

section \<open>Properties of the string primitives\<close>

text \<open>A byte is ASCII when it is below \<^verbatim>\<open>0x80\<close>.\<close>

lemma is_ascii_iff: "is_ascii c \<longleftrightarrow> (of_char c :: nat) < 128"
  by (cases c) (auto simp: is_ascii_def)

lemma Split_not_Nil: "Split s sep \<noteq> []"
  by (induction s) (auto split: list.splits)

lemma Split_no_sep: "sep \<notin> set s \<Longrightarrow> Split s sep = [s]"
  by (induction s) auto

lemma Split_append_sep: "sep \<notin> set a \<Longrightarrow> Split (a @ sep # b) sep = a # Split b sep"
  by (induction a) auto

lemma SplitN2_not_Nil: "SplitN2 s sep \<noteq> []"
  by (induction s) (auto split: list.splits)

lemma SplitN2_no_sep: "sep \<notin> set s \<Longrightarrow> SplitN2 s sep = [s]"
  by (induction s) auto

lemma SplitN2_append_sep: "sep \<notin> set a \<Longrightarrow> SplitN2 (a @ sep # b) sep = [a, b]"
  by (induction a) auto

lemma SplitN2_length: "length (SplitN2 s sep) = (if sep \<in> set s then 2 else 1)"
  by (induction s) (auto split: list.splits)

lemma Join_Cons: "Join (p # ps) sep = (if ps = [] then p else p @ sep @ Join ps sep)"
  by (cases ps) auto

lemma Join_Split: "Join (Split s c) [c] = s"
proof (induction s)
  case Nil
  show ?case by simp
next
  case (Cons x xs)
  obtain p ps where sp: "Split xs c = p # ps"
    using Split_not_Nil [of xs c] by (cases "Split xs c") auto
  with Cons show ?case
    by (cases ps) auto
qed

lemma Split_params:
  "\<lbrakk>sep \<notin> set a; \<forall>p\<in>set ps. sep \<notin> set p\<rbrakk>
   \<Longrightarrow> Split (a @ concat (map ((#) sep) ps)) sep = a # ps"
proof (induction ps arbitrary: a)
  case Nil
  then show ?case by (simp add: Split_no_sep)
next
  case (Cons p ps)
  have "Split (a @ sep # (p @ concat (map ((#) sep) ps))) sep
        = a # Split (p @ concat (map ((#) sep) ps)) sep"
    using Cons.prems by (simp add: Split_append_sep)
  with Cons show ?case by simp
qed

lemma Split_params_trailing:
  "\<lbrakk>sep \<notin> set a; \<forall>p\<in>set ps. sep \<notin> set p\<rbrakk>
   \<Longrightarrow> Split (a @ concat (map ((#) sep) ps) @ sep # u) sep = a # ps @ Split u sep"
proof (induction ps arbitrary: a)
  case Nil
  then show ?case by (simp add: Split_append_sep)
next
  case (Cons p ps)
  have "Split (a @ sep # (p @ concat (map ((#) sep) ps) @ sep # u)) sep
        = a # Split (p @ concat (map ((#) sep) ps) @ sep # u) sep"
    using Cons.prems by (simp add: Split_append_sep)
  with Cons show ?case by simp
qed

lemma Index_ge: "- 1 \<le> Index s b"
  by (induction s) (auto simp: Let_def)

lemma Index_none: "Index s b = - 1 \<longleftrightarrow> b \<notin> set s"
proof (induction s)
  case Nil
  show ?case by simp
next
  case (Cons x xs)
  have "Index xs b + 1 \<noteq> - 1"
    using Index_ge [of xs b] by arith
  with Cons show ?case by (simp add: Let_def)
qed

lemma Index_nonneg: "Index s b \<noteq> - 1 \<Longrightarrow> 0 \<le> Index s b"
  using Index_ge [of s b] by arith

lemma Index_takeWhile:
  "b \<in> set s \<Longrightarrow> nat (Index s b) = length (takeWhile (\<lambda>c. c \<noteq> b) s)"
proof (induction s)
  case Nil
  then show ?case by simp
next
  case (Cons x xs)
  show ?case
  proof (cases "x = b")
    case True
    then show ?thesis by simp
  next
    case False
    with Cons.prems have mem: "b \<in> set xs" by simp
    then have "Index xs b \<noteq> - 1" by (simp add: Index_none)
    then have "0 \<le> Index xs b" by (rule Index_nonneg)
    with False Cons.IH [OF mem] \<open>Index xs b \<noteq> - 1\<close> show ?thesis
      by (simp add: Let_def nat_add_distrib)
  qed
qed

lemma slice_to_Index:
  "b \<in> set s \<Longrightarrow> slice_to s (nat (Index s b)) = Inr (takeWhile (\<lambda>c. c \<noteq> b) s)"
proof -
  assume mem: "b \<in> set s"
  have "take (length (takeWhile (\<lambda>c. c \<noteq> b) s)) s = takeWhile (\<lambda>c. c \<noteq> b) s"
    by (induction s) auto
  moreover have "length (takeWhile (\<lambda>c. c \<noteq> b) s) \<le> length s"
    by (rule length_takeWhile_le)
  ultimately show ?thesis
    using mem by (simp add: slice_to_def Index_takeWhile)
qed

lemma parseArgs_plain:
  "\<forall>p\<in>set ps. \<not> HasPrefix p '':'' \<Longrightarrow> parseArgs (ps @ qs) args = parseArgs qs (args @ ps)"
  by (induction ps arbitrary: args) auto

lemma parseArgs_trailing:
  "parseArgs (Split (CHR '':'' # t) CHR '' '') args = Inr (args @ [t])"
proof -
  obtain p ps where sp: "Split (CHR '':'' # t) CHR '' '' = (CHR '':'' # p) # ps"
    using Split_not_Nil [of t "CHR '' ''"] by (cases "Split t CHR '' ''") auto
  have "Join ((CHR '':'' # p) # ps) '' '' = CHR '':'' # t"
    using Join_Split [of "CHR '':'' # t" "CHR '' ''"] sp by simp
  then show ?thesis
    unfolding sp by (simp add: HasPrefix_def slice_from_def)
qed

lemma parseArgs_total: "\<exists>as. parseArgs ps args = Inr as"
proof (induction ps arbitrary: args)
  case Nil
  show ?case by simp
next
  case (Cons p ps)
  show ?case
  proof (cases "HasPrefix p '':''")
    case True
    then have "p \<noteq> []" by (auto simp: HasPrefix_def)
    then have "1 \<le> length (Join (p # ps) '' '')"
      by (cases ps) (auto simp: Suc_le_eq)
    with True show ?thesis by (simp add: slice_from_def)
  next
    case False
    with Cons show ?thesis by simp
  qed
qed

lemma ToUpper_Nil_iff: "ToUpper lib s = [] \<longleftrightarrow> s = []"
  by (auto simp: ToUpper_def)

lemma ToUpper_ascii: "list_all is_ascii s \<Longrightarrow> ToUpper lib s = map upper_byte s"
  by (simp add: ToUpper_def)

lemma parseCommand_wire:
  assumes cmd: "CHR '' '' \<notin> set cmd"
    and ps: "\<forall>p\<in>set ps. CHR '' '' \<notin> set p \<and> \<not> HasPrefix p '':''"
  shows "parseCommand lib line
           (cmd @ concat (map ((#) CHR '' '') ps) @ (case trail of None \<Rightarrow> [] | Some t \<Rightarrow> '' :'' @ t))
         = Inr (line\<lparr>Cmd := ToUpper lib cmd,
                     Args := Args line @ ps @ (case trail of None \<Rightarrow> [] | Some t \<Rightarrow> [t])\<rparr>)"
proof (cases trail)
  case None
  have "Split (cmd @ concat (map ((#) CHR '' '') ps)) CHR '' '' = cmd # ps"
    using cmd ps by (simp add: Split_params)
  moreover have "parseArgs (ps @ []) (Args line) = parseArgs [] (Args line @ ps)"
    using ps by (intro parseArgs_plain) simp
  ultimately show ?thesis
    using None by (simp add: parseCommand_def)
next
  case (Some t)
  define ts where "ts = Split (CHR '':'' # t) CHR '' ''"
  have "Split (cmd @ concat (map ((#) CHR '' '') ps) @ CHR '' '' # CHR '':'' # t) CHR '' ''
        = cmd # ps @ ts"
    unfolding ts_def using cmd ps by (intro Split_params_trailing) auto
  moreover have "parseArgs (ps @ ts) (Args line) = parseArgs ts (Args line @ ps)"
    using ps by (intro parseArgs_plain) simp
  moreover have "parseArgs ts (Args line @ ps) = Inr ((Args line @ ps) @ [t])"
    unfolding ts_def by (rule parseArgs_trailing)
  ultimately show ?thesis
    using Some by (simp add: parseCommand_def)
qed

lemma parseCommand_total: "\<exists>l. parseCommand lib line raw = Inr l"
proof -
  obtain as where "parseArgs (tl (Split raw CHR '' '')) (Args line) = Inr as"
    using parseArgs_total by blast
  then show ?thesis by (simp add: parseCommand_def Let_def)
qed

lemma parseCommand_Cmd:
  "parseCommand lib line raw = Inr l \<Longrightarrow> Cmd l = ToUpper lib (takeWhile (\<lambda>c. c \<noteq> CHR '' '') raw)"
proof -
  assume r: "parseCommand lib line raw = Inr l"
  have hd_Split: "hd (Split s CHR '' '') = takeWhile (\<lambda>c. c \<noteq> CHR '' '') s" for s
    using Split_not_Nil by (induction s) (auto split: list.splits)
  from r show ?thesis
    by (auto simp: parseCommand_def Let_def Split_not_Nil hd_Split split: sum.splits)
qed

lemma parseLine_unprefixed:
  "\<not> HasPrefix raw '':'' \<Longrightarrow>
   parseLine lib raw = parseCommand lib \<lparr>Nick = [], Src = [], Cmd = [], Args = []\<rparr> raw"
  by (simp add: parseLine_def)

lemma parseLine_prefix_only:
  "CHR '' '' \<notin> set src \<Longrightarrow>
   parseLine lib (CHR '':'' # src) = Inr \<lparr>Nick = [], Src = [], Cmd = [], Args = []\<rparr>"
  by (simp add: parseLine_def HasPrefix_def slice_from_def SplitN2_no_sep)

lemma parseLine_prefixed:
  assumes "CHR '' '' \<notin> set src"
  shows "parseLine lib (CHR '':'' # src @ CHR '' '' # rest)
         = parseCommand lib \<lparr>Nick = (if CHR ''!'' \<in> set src then takeWhile (\<lambda>c. c \<noteq> CHR ''!'') src else []),
                          Src = src, Cmd = [], Args = []\<rparr> rest"
proof (cases "CHR ''!'' \<in> set src")
  case True
  then have "Index src CHR ''!'' \<noteq> - 1" by (simp add: Index_none)
  with True assms show ?thesis
    by (simp add: parseLine_def HasPrefix_def slice_from_def SplitN2_append_sep slice_to_Index)
next
  case False
  then have "Index src CHR ''!'' = - 1" by (simp add: Index_none)
  with False assms show ?thesis
    by (simp add: parseLine_def HasPrefix_def slice_from_def SplitN2_append_sep)
qed

lemma parseLine_total: "\<exists>l. parseLine lib raw = Inr l"
proof (cases "HasPrefix raw '':''")
  case False
  then show ?thesis
    using parseCommand_total by (simp add: parseLine_unprefixed)
next
  case True
  then obtain r where raw: "raw = CHR '':'' # r"
    by (cases raw) (auto simp: HasPrefix_def)
  show ?thesis
  proof (cases "CHR '' '' \<in> set r")
    case False
    then show ?thesis by (simp add: raw parseLine_prefix_only)
  next
    case True
    then obtain src rest where r: "r = src @ CHR '' '' # rest" and src: "CHR '' '' \<notin> set src"
      by (meson split_list_first)
    show ?thesis
      using parseCommand_total by (simp add: raw r parseLine_prefixed [OF src])
  qed
qed

section \<open>Properties of the line codec\<close>

lemma wire_not_prefixed:
  "\<not> HasPrefix cmd '':'' \<Longrightarrow>
   \<not> HasPrefix (cmd @ concat (map ((#) CHR '' '') ps) @ (case trail of None \<Rightarrow> [] | Some t \<Rightarrow> '' :'' @ t)) '':''"
  by (cases cmd; cases ps; cases trail) (auto simp: HasPrefix_def)

text \<open>
  C1. The line \<^verbatim>\<open>:nick!user@host PRIVMSG #chan :hello world\<close> parses to nick \<^verbatim>\<open>nick\<close>,
  source \<^verbatim>\<open>nick!user@host\<close>, command \<^verbatim>\<open>PRIVMSG\<close> and the two arguments \<^verbatim>\<open>#chan\<close> and
  \<^verbatim>\<open>hello world\<close>. In general, for a line made of a command, parameters \<open>ps\<close> that contain
  no space and do not start with a colon, and optionally a space, a colon and any text
  \<open>t\<close> (which may contain spaces and colons): the arguments are the parameters in order,
  followed by \<open>t\<close> as one last argument; the same holds after a prefix, which becomes the
  source, with the nick the part of it before the first \<^verbatim>\<open>!\<close>. The command is the command
  token as \<^verbatim>\<open>strings.ToUpper\<close> returns it (byte-wise upper case for an ASCII token, see
  \<open>ToUpper_ascii\<close>), whatever the Unicode tables of the library are.
\<close>

theorem C1_parseLine_trailing:
  "parseLine lib '':nick!user@host PRIVMSG #chan :hello world''
     = Inr \<lparr>Nick = ''nick'', Src = ''nick!user@host'', Cmd = ''PRIVMSG'',
            Args = [''#chan'', ''hello world'']\<rparr>
   \<and> (\<forall>cmd ps trail.
        CHR '' '' \<notin> set cmd \<and> \<not> HasPrefix cmd '':''
        \<and> (\<forall>p\<in>set ps. CHR '' '' \<notin> set p \<and> \<not> HasPrefix p '':'') \<longrightarrow>
        parseLine lib (cmd @ concat (map ((#) CHR '' '') ps)
                   @ (case trail of None \<Rightarrow> [] | Some t \<Rightarrow> '' :'' @ t))
          = Inr \<lparr>Nick = [], Src = [], Cmd = ToUpper lib cmd,
                 Args = ps @ (case trail of None \<Rightarrow> [] | Some t \<Rightarrow> [t])\<rparr>)
   \<and> (\<forall>src cmd ps trail.
        CHR '' '' \<notin> set src \<and> CHR '' '' \<notin> set cmd
        \<and> (\<forall>p\<in>set ps. CHR '' '' \<notin> set p \<and> \<not> HasPrefix p '':'') \<longrightarrow>
        parseLine lib (CHR '':'' # src @ CHR '' '' # cmd @ concat (map ((#) CHR '' '') ps)
                   @ (case trail of None \<Rightarrow> [] | Some t \<Rightarrow> '' :'' @ t))
          = Inr \<lparr>Nick = (if CHR ''!'' \<in> set src then takeWhile (\<lambda>c. c \<noteq> CHR ''!'') src else []),
                 Src = src, Cmd = ToUpper lib cmd,
                 Args = ps @ (case trail of None \<Rightarrow> [] | Some t \<Rightarrow> [t])\<rparr>)"
proof (intro conjI allI impI)
  fix cmd :: string and ps :: "string list" and trail :: "string option"
  assume h: "CHR '' '' \<notin> set cmd \<and> \<not> HasPrefix cmd '':''
             \<and> (\<forall>p\<in>set ps. CHR '' '' \<notin> set p \<and> \<not> HasPrefix p '':'')"
  then have "\<not> HasPrefix (cmd @ concat (map ((#) CHR '' '') ps)
                @ (case trail of None \<Rightarrow> [] | Some t \<Rightarrow> '' :'' @ t)) '':''"
    by (intro wire_not_prefixed) simp
  then show "parseLine lib (cmd @ concat (map ((#) CHR '' '') ps)
                   @ (case trail of None \<Rightarrow> [] | Some t \<Rightarrow> '' :'' @ t))
          = Inr \<lparr>Nick = [], Src = [], Cmd = ToUpper lib cmd,
                 Args = ps @ (case trail of None \<Rightarrow> [] | Some t \<Rightarrow> [t])\<rparr>"
    using h by (simp add: parseLine_unprefixed parseCommand_wire)
next
  fix src cmd :: string and ps :: "string list" and trail :: "string option"
  assume h: "CHR '' '' \<notin> set src \<and> CHR '' '' \<notin> set cmd
             \<and> (\<forall>p\<in>set ps. CHR '' '' \<notin> set p \<and> \<not> HasPrefix p '':'')"
  then show "parseLine lib (CHR '':'' # src @ CHR '' '' # cmd @ concat (map ((#) CHR '' '') ps)
                   @ (case trail of None \<Rightarrow> [] | Some t \<Rightarrow> '' :'' @ t))
          = Inr \<lparr>Nick = (if CHR ''!'' \<in> set src then takeWhile (\<lambda>c. c \<noteq> CHR ''!'') src else []),
                 Src = src, Cmd = ToUpper lib cmd,
                 Args = ps @ (case trail of None \<Rightarrow> [] | Some t \<Rightarrow> [t])\<rparr>"
    by (simp add: parseLine_prefixed parseCommand_wire)
next
  show "parseLine lib '':nick!user@host PRIVMSG #chan :hello world''
     = Inr \<lparr>Nick = ''nick'', Src = ''nick!user@host'', Cmd = ''PRIVMSG'',
            Args = [''#chan'', ''hello world'']\<rparr>"
    by (simp add: parseLine_def parseCommand_def HasPrefix_def slice_from_def slice_to_def
        ToUpper_def is_ascii_def upper_byte_def)
qed

theorem C1_parseLine_trailing_witness:
  "parseLine example_unicode ''privmsg #chan  x :hi :there  you''
     = Inr \<lparr>Nick = [], Src = [], Cmd = ''PRIVMSG'', Args = [''#chan'', [], ''x'', ''hi :there  you'']\<rparr>
   \<and> parseLine example_unicode '':srv.example 353 me = #chan :@alice +bob''
     = Inr \<lparr>Nick = [], Src = ''srv.example'', Cmd = ''353'',
            Args = [''me'', ''='', ''#chan'', ''@alice +bob'']\<rparr>"
proof
  show "parseLine example_unicode ''privmsg #chan  x :hi :there  you''
     = Inr \<lparr>Nick = [], Src = [], Cmd = ''PRIVMSG'', Args = [''#chan'', [], ''x'', ''hi :there  you'']\<rparr>"
    using C1_parseLine_trailing [where lib = example_unicode, THEN conjunct2, THEN conjunct1, rule_format,
        of "''privmsg''" "[''#chan'', [], ''x'']" "Some ''hi :there  you''"]
    by (simp add: HasPrefix_def ToUpper_def is_ascii_def upper_byte_def)
  show "parseLine example_unicode '':srv.example 353 me = #chan :@alice +bob''
     = Inr \<lparr>Nick = [], Src = ''srv.example'', Cmd = ''353'',
            Args = [''me'', ''='', ''#chan'', ''@alice +bob'']\<rparr>"
    using C1_parseLine_trailing [where lib = example_unicode, THEN conjunct2, THEN conjunct2, rule_format,
        of "''srv.example''" "''353''" "[''me'', ''='', ''#chan'']" "Some ''@alice +bob''"]
    by (simp add: HasPrefix_def ToUpper_def is_ascii_def upper_byte_def)
qed

section \<open>Properties of the write path and of the dispatcher\<close>

lemma sendRaw_error:
  "fst (sendRaw c cmd io) =
     (if \<not> connected c then Some NotConnected
      else (case io of IoOk \<Rightarrow> None | WriteFails msg \<Rightarrow> Some (WriterError msg)
            | FlushFails msg \<Rightarrow> Some (WriterError msg)))"
  by (simp add: sendRaw_def Let_def split: io_result.splits)

lemma sendRaw_trace:
  "trace (snd (sendRaw c cmd io)) =
     trace c @
     (if connected c then
        (case debugSendFn c of None \<Rightarrow> [] | Some fn \<Rightarrow> [DebugSend fn cmd])
        @ WriteString (cmd @ CRLF) # (case io of WriteFails msg \<Rightarrow> [] | FlushFails msg \<Rightarrow> [Flush] | IoOk \<Rightarrow> [Flush])
      else [])"
  by (simp add: sendRaw_def Let_def emit_def split: io_result.splits option.splits)

lemma sendRaw_state:
  "snd (sendRaw c cmd io) = c\<lparr>trace := trace (snd (sendRaw c cmd io))\<rparr>"
  by (simp add: sendRaw_def Let_def emit_def split: io_result.splits option.splits)

lemma sendRaw_fields [simp]:
  "connected (snd (sendRaw c cmd io)) = connected c"
  "handlers (snd (sendRaw c cmd io)) = handlers c"
  "quit_closed (snd (sendRaw c cmd io)) = quit_closed c"
  "done_closed (snd (sendRaw c cmd io)) = done_closed c"
  "conn (snd (sendRaw c cmd io)) = conn c"
  "debugSendFn (snd (sendRaw c cmd io)) = debugSendFn c"
  "cfg (snd (sendRaw c cmd io)) = cfg c"
  by (simp_all add: sendRaw_def Let_def emit_def split: io_result.splits option.splits)

lemma dispatch_fields [simp]:
  "connected (dispatch c event line io) = connected c"
  "handlers (dispatch c event line io) = handlers c"
  "quit_closed (dispatch c event line io) = quit_closed c"
  "done_closed (dispatch c event line io) = done_closed c"
  "conn (dispatch c event line io) = conn c"
  "debugSendFn (dispatch c event line io) = debugSendFn c"
  "cfg (dispatch c event line io) = cfg c"
  by (simp_all add: dispatch_def Let_def emit_def split: option.splits)

lemma dispatch_state:
  "dispatch c event line io = c\<lparr>trace := trace (dispatch c event line io)\<rparr>"
proof -
  have "snd (sendRaw c cmd io) = c\<lparr>trace := trace (snd (sendRaw c cmd io))\<rparr>" for cmd
    by (rule sendRaw_state)
  then show ?thesis
    by (auto simp: dispatch_def Let_def emit_def split: option.splits)
qed

lemma dispatch_other_trace:
  "event \<noteq> ''PING'' \<Longrightarrow>
   trace (dispatch c event line io) =
     trace c @ map (\<lambda>handler. Spawn handler line) (handlers c event @ handlers c ''*'')"
  by (simp add: dispatch_def emit_def)

lemma dispatch_PING_trace:
  "trace (dispatch c ''PING'' line io) =
     trace (snd (sendRaw c (if Args line = [] then ''PONG'' else ''PONG :'' @ hd (Args line)) io))
     @ (case fst (sendRaw c (if Args line = [] then ''PONG'' else ''PONG :'' @ hd (Args line)) io) of
          None \<Rightarrow> []
        | Some err \<Rightarrow> [Stderr (''Failed to send PONG: '' @ error_text err @ [CHR 0x0A])])
     @ map (\<lambda>handler. Spawn handler line) (handlers c ''PING'' @ handlers c ''*'')"
  by (cases "Args line") (simp_all add: dispatch_def emit_def Let_def split: option.splits)

text \<open>
  C2. For every dispatched line whose command is PING, \<^verbatim>\<open>dispatch\<close> makes one send of the
  reply before any handler is started: on a connected connection the events are the
  debug hook (if installed), one write of \<^verbatim>\<open>PONG :<arg0>\<close> followed by CR LF when the line
  has an argument and of \<^verbatim>\<open>PONG\<close> followed by CR LF when it has none, the flush, and a
  line on standard error when the write or the flush failed; on a connection that is not
  connected the send fails without I/O and only the line on standard error appears.
  Whatever the outcome of the send, the handlers registered for PING and the wildcard
  handlers are all started afterwards.
\<close>

theorem C2_PING_reply_before_handlers:
  assumes "Cmd line = ''PING''"
  shows "trace (dispatch c (Cmd line) line io) =
     (let pong = (if Args line = [] then ''PONG'' else ''PONG :'' @ Args line ! 0) in
      trace c
      @ (if connected c then
           (case debugSendFn c of None \<Rightarrow> [] | Some fn \<Rightarrow> [DebugSend fn pong])
           @ [WriteString (pong @ CRLF)]
           @ (case io of
                IoOk \<Rightarrow> [Flush]
              | WriteFails msg \<Rightarrow> [Stderr (''Failed to send PONG: '' @ msg @ [CHR 0x0A])]
              | FlushFails msg \<Rightarrow> [Flush, Stderr (''Failed to send PONG: '' @ msg @ [CHR 0x0A])])
         else [Stderr (''Failed to send PONG: not connected'' @ [CHR 0x0A])])
      @ map (\<lambda>handler. Spawn handler line) (handlers c ''PING'' @ handlers c ''*''))"
proof (cases "Args line")
  case Nil
  then show ?thesis
    unfolding assms dispatch_PING_trace
    by (simp add: sendRaw_trace sendRaw_error split: io_result.splits option.splits)
next
  case (Cons a as)
  then show ?thesis
    unfolding assms dispatch_PING_trace
    by (simp add: sendRaw_trace sendRaw_error split: io_result.splits option.splits)
qed

theorem C2_PING_reply_before_handlers_witness:
  "Cmd \<lparr>Nick = [], Src = [], Cmd = ''PING'', Args = [''server.example'']\<rparr> = ''PING''
   \<and> trace (dispatch example_conn ''PING''
             \<lparr>Nick = [], Src = [], Cmd = ''PING'', Args = [''server.example'']\<rparr> IoOk)
     = trace example_conn
       @ [DebugSend 0 ''PONG :server.example'',
          WriteString (''PONG :server.example'' @ CRLF),
          Flush,
          Spawn 1 \<lparr>Nick = [], Src = [], Cmd = ''PING'', Args = [''server.example'']\<rparr>,
          Spawn 2 \<lparr>Nick = [], Src = [], Cmd = ''PING'', Args = [''server.example'']\<rparr>]"
  using C2_PING_reply_before_handlers
    [of "\<lparr>Nick = [], Src = [], Cmd = ''PING'', Args = [''server.example'']\<rparr>" example_conn IoOk]
  by (simp add: example_conn_def example_client_def Connect_def HandleFunc_def SetDebugSend_def
      Client_def emit_def)

text \<open>
  C4 (failing input). A line whose command is \<^verbatim>\<open>*\<close> is dispatched with the event tag
  \<^verbatim>\<open>"*"\<close>: the list of handlers of the event and the list of wildcard handlers are then the
  same list, and every handler registered under \<^verbatim>\<open>"*"\<close> is started twice for the one line.
\<close>

theorem C4_wildcard_tag_starts_handlers_twice:
  "parseLine lib ''*'' = Inr \<lparr>Nick = [], Src = [], Cmd = ''*'', Args = []\<rparr>
   \<and> trace (dispatch (HandleFunc (Client config) ''*'' w) ''*''
             \<lparr>Nick = [], Src = [], Cmd = ''*'', Args = []\<rparr> io)
     = [Spawn w \<lparr>Nick = [], Src = [], Cmd = ''*'', Args = []\<rparr>,
        Spawn w \<lparr>Nick = [], Src = [], Cmd = ''*'', Args = []\<rparr>]"
proof
  show "parseLine lib ''*'' = Inr \<lparr>Nick = [], Src = [], Cmd = ''*'', Args = []\<rparr>"
    by (simp add: parseLine_def parseCommand_def HasPrefix_def ToUpper_def is_ascii_def upper_byte_def)
  show "trace (dispatch (HandleFunc (Client config) ''*'' w) ''*''
             \<lparr>Nick = [], Src = [], Cmd = ''*'', Args = []\<rparr> io)
     = [Spawn w \<lparr>Nick = [], Src = [], Cmd = ''*'', Args = []\<rparr>,
        Spawn w \<lparr>Nick = [], Src = [], Cmd = ''*'', Args = []\<rparr>]"
    by (simp add: dispatch_other_trace HandleFunc_def Client_def)
qed

text \<open>
  For an event tag other than \<^verbatim>\<open>"*"\<close>, registering \<open>hs\<close> under the tag and \<open>w\<close> under
  \<^verbatim>\<open>"*"\<close> on a fresh connection, in either order, starts each of them once.
\<close>

lemma dispatch_registered_once:
  assumes "t \<noteq> ''*''" and "t \<noteq> ''PING''"
  shows "trace (dispatch (HandleFunc (foldl (\<lambda>c h. HandleFunc c t h) (Client config) hs) ''*'' w) t line io)
         = map (\<lambda>handler. Spawn handler line) (hs @ [w])"
proof -
  have reg: "handlers (foldl (\<lambda>c h. HandleFunc c t h) c0 hs) = (handlers c0)(t := handlers c0 t @ hs)"
    and tr: "trace (foldl (\<lambda>c h. HandleFunc c t h) c0 hs) = trace c0" for c0 :: "'a Conn"
    by (induction hs arbitrary: c0) (auto simp: HandleFunc_def)
  define c1 where "c1 = foldl (\<lambda>c h. HandleFunc c t h) (Client config :: 'a Conn) hs"
  have "handlers c1 = (\<lambda>event. [])(t := hs)" and "trace c1 = []"
    by (simp_all add: c1_def reg tr Client_def)
  then have "trace (dispatch (HandleFunc c1 ''*'' w) t line io)
             = map (\<lambda>handler. Spawn handler line) (hs @ [w])"
    using assms by (simp add: dispatch_other_trace HandleFunc_def)
  then show ?thesis by (simp add: c1_def)
qed

text \<open>
  C7. On a connection whose \<^verbatim>\<open>connected\<close> flag is false, \<^verbatim>\<open>sendRaw\<close> returns the error
  \<^verbatim>\<open>not connected\<close> for every command and every state of the transport, and leaves the
  connection as it was: nothing is written or flushed and the debug hook is not called.
  The same holds for the commands built on it.
\<close>

theorem C7_not_connected_no_io:
  assumes "\<not> Connected c"
  shows "sendRaw c cmd io = (Some NotConnected, c)
     \<and> error_text NotConnected = ''not connected''
     \<and> trace (snd (sendRaw c cmd io)) = trace c
     \<and> Raw c cmd io = c \<and> Join_cmd c channel io = c \<and> Part c channel io = c
     \<and> Privmsg c target message io = c"
  using assms
  by (simp add: Connected_def sendRaw_def Raw_def Join_cmd_def Part_def Privmsg_def)

theorem C7_not_connected_no_io_witness:
  "\<not> Connected example_client
   \<and> debugSendFn example_client = Some 0
   \<and> sendRaw example_client ''JOIN #chan'' IoOk = (Some NotConnected, example_client)
   \<and> trace (snd (sendRaw example_client ''JOIN #chan'' IoOk)) = []"
proof -
  have nc: "\<not> Connected example_client"
    by (simp add: Connected_def example_client_def HandleFunc_def SetDebugSend_def Client_def)
  have "trace example_client = []"
    by (simp add: example_client_def HandleFunc_def SetDebugSend_def Client_def)
  moreover have "debugSendFn example_client = Some 0"
    by (simp add: example_client_def HandleFunc_def SetDebugSend_def Client_def)
  ultimately show ?thesis
    using nc C7_not_connected_no_io [OF nc, of "''JOIN #chan''" IoOk] by simp
qed

text \<open>
  C6 (counterexample). Were a write failure returned to the caller of a command, a call
  whose flush fails would return something else than a call that succeeds. It does not:
  \<^verbatim>\<open>sendRaw\<close> reports the failure, and \<^verbatim>\<open>Join\<close> gives its caller the same result, and
  leaves the same connection, in both cases.
\<close>

theorem C6_counterexample:
  "fst (sendRaw example_conn ''JOIN #chan'' (FlushFails ''broken pipe''))
     = Some (WriterError ''broken pipe'')
   \<and> fst (sendRaw example_conn ''JOIN #chan'' IoOk) = None
   \<and> Join_cmd example_conn ''#chan'' (FlushFails ''broken pipe'')
     = Join_cmd example_conn ''#chan'' IoOk"
  by (simp add: Join_cmd_def sendRaw_def example_conn_def example_client_def Connect_def
      HandleFunc_def SetDebugSend_def Client_def emit_def)

text \<open>
  C6 (amended). Each of \<^verbatim>\<open>Raw\<close>, \<^verbatim>\<open>Join\<close>, \<^verbatim>\<open>Part\<close> and \<^verbatim>\<open>Privmsg\<close> makes one call of
  \<^verbatim>\<open>sendRaw\<close> with its line. That call returns an error exactly when the connection is
  not connected or the write or the flush fails, and it makes one attempt: at most one
  write and one flush, no retry. The command itself returns no value and drops the
  error: a failed flush and a success leave the caller with the same result.
\<close>

theorem C6_write_failure_dropped:
  "fst (sendRaw c cmd io) =
     (if \<not> connected c then Some NotConnected
      else (case io of IoOk \<Rightarrow> None | WriteFails msg \<Rightarrow> Some (WriterError msg)
            | FlushFails msg \<Rightarrow> Some (WriterError msg)))
   \<and> trace (snd (sendRaw c cmd io)) =
       trace c @
       (if connected c then
          (case debugSendFn c of None \<Rightarrow> [] | Some fn \<Rightarrow> [DebugSend fn cmd])
          @ WriteString (cmd @ CRLF)
            # (case io of WriteFails msg \<Rightarrow> [] | FlushFails msg \<Rightarrow> [Flush] | IoOk \<Rightarrow> [Flush])
        else [])
   \<and> Raw c cmd io = snd (sendRaw c cmd io)
   \<and> Join_cmd c channel io = snd (sendRaw c (''JOIN '' @ channel) io)
   \<and> Part c channel io = snd (sendRaw c (''PART '' @ channel) io)
   \<and> Privmsg c target message io = snd (sendRaw c (''PRIVMSG '' @ target @ '' :'' @ message) io)
   \<and> Raw c cmd (FlushFails m) = Raw c cmd IoOk
   \<and> Join_cmd c channel (FlushFails m) = Join_cmd c channel IoOk
   \<and> Part c channel (FlushFails m) = Part c channel IoOk
   \<and> Privmsg c target message (FlushFails m) = Privmsg c target message IoOk"
proof -
  have same: "snd (sendRaw c line (FlushFails m)) = snd (sendRaw c line IoOk)" for line
    by (simp add: sendRaw_def Let_def)
  show ?thesis
    by (simp add: sendRaw_error sendRaw_trace Raw_def Join_cmd_def Part_def Privmsg_def same)
qed

text \<open>
  C8 (counterexample). The line \<^verbatim>\<open>:prefix\<close> parses to the empty command. On a
  connection with one handler, registered under the empty tag and not under \<^verbatim>\<open>"*"\<close>,
  dispatching that line starts the handler: it is observed by a handler that is not a
  wildcard handler.
\<close>

theorem C8_counterexample:
  "parseLine example_unicode '':prefix'' = Inr \<lparr>Nick = [], Src = [], Cmd = [], Args = []\<rparr>
   \<and> handlers (HandleFunc (Client example_cfg) [] (7::nat)) ''*'' = []
   \<and> trace (dispatch (HandleFunc (Client example_cfg) [] (7::nat)) []
             \<lparr>Nick = [], Src = [], Cmd = [], Args = []\<rparr> IoOk)
     = [Spawn 7 \<lparr>Nick = [], Src = [], Cmd = [], Args = []\<rparr>]"
proof -
  have "parseLine example_unicode '':prefix'' = Inr \<lparr>Nick = [], Src = [], Cmd = [], Args = []\<rparr>"
    by (simp add: parseLine_prefix_only)
  then show ?thesis
    by (simp add: dispatch_other_trace HandleFunc_def Client_def)
qed

text \<open>
  C8 (amended). \<^verbatim>\<open>parseLine\<close> returns a line for every input string and never panics.
  A line that is only a prefix (a colon and no space) gives the empty command; a line
  without prefix gives the empty command exactly when it is empty or starts with a
  space, and a line with a prefix exactly when the text after the prefix's space is
  empty or starts with a space. Dispatching a line with the empty command sends nothing
  and starts the handlers registered under the empty tag followed by the wildcard
  handlers; when no handler is registered under the empty tag, only the wildcard
  handlers.
\<close>

theorem C8_malformed_line_empty_command:
  "(\<exists>l. parseLine lib raw = Inr l)
   \<and> (CHR '' '' \<notin> set src \<longrightarrow>
        parseLine lib (CHR '':'' # src) = Inr \<lparr>Nick = [], Src = [], Cmd = [], Args = []\<rparr>)
   \<and> (\<not> HasPrefix raw '':'' \<and> parseLine lib raw = Inr l \<longrightarrow>
        (Cmd l = [] \<longleftrightarrow> raw = [] \<or> HasPrefix raw '' ''))
   \<and> (CHR '' '' \<notin> set src \<and> parseLine lib (CHR '':'' # src @ CHR '' '' # rest) = Inr l' \<longrightarrow>
        (Cmd l' = [] \<longleftrightarrow> rest = [] \<or> HasPrefix rest '' ''))
   \<and> (parseLine lib raw = Inr l \<and> Cmd l = [] \<longrightarrow>
        trace (dispatch c (Cmd l) l io)
          = trace c @ map (\<lambda>handler. Spawn handler l) (handlers c [] @ handlers c ''*''))
   \<and> (parseLine lib raw = Inr l \<and> Cmd l = [] \<and> handlers c [] = [] \<longrightarrow>
        trace (dispatch c (Cmd l) l io)
          = trace c @ map (\<lambda>handler. Spawn handler l) (handlers c ''*''))"
proof -
  have token: "takeWhile (\<lambda>c. c \<noteq> CHR '' '') s = [] \<longleftrightarrow> s = [] \<or> HasPrefix s '' ''" for s
    by (cases s) (auto simp: HasPrefix_def)
  have a: "\<exists>l. parseLine lib raw = Inr l"
    by (rule parseLine_total)
  have b: "CHR '' '' \<notin> set src \<longrightarrow>
        parseLine lib (CHR '':'' # src) = Inr \<lparr>Nick = [], Src = [], Cmd = [], Args = []\<rparr>"
    by (simp add: parseLine_prefix_only)
  have c: "\<not> HasPrefix raw '':'' \<and> parseLine lib raw = Inr l \<longrightarrow>
        (Cmd l = [] \<longleftrightarrow> raw = [] \<or> HasPrefix raw '' '')"
  proof
    assume h: "\<not> HasPrefix raw '':'' \<and> parseLine lib raw = Inr l"
    then have "parseLine lib raw = parseCommand lib \<lparr>Nick = [], Src = [], Cmd = [], Args = []\<rparr> raw"
      by (intro parseLine_unprefixed) simp
    with h have "parseCommand lib \<lparr>Nick = [], Src = [], Cmd = [], Args = []\<rparr> raw = Inr l"
      by simp
    then have "Cmd l = ToUpper lib (takeWhile (\<lambda>c. c \<noteq> CHR '' '') raw)"
      by (rule parseCommand_Cmd)
    then show "Cmd l = [] \<longleftrightarrow> raw = [] \<or> HasPrefix raw '' ''"
      using token [of raw] by (simp only: ToUpper_Nil_iff)
  qed
  have d: "CHR '' '' \<notin> set src \<and> parseLine lib (CHR '':'' # src @ CHR '' '' # rest) = Inr l' \<longrightarrow>
        (Cmd l' = [] \<longleftrightarrow> rest = [] \<or> HasPrefix rest '' '')"
  proof
    assume h: "CHR '' '' \<notin> set src \<and> parseLine lib (CHR '':'' # src @ CHR '' '' # rest) = Inr l'"
    then have "\<exists>line. parseCommand lib line rest = Inr l'"
      using parseLine_prefixed [of src lib rest] by auto
    then have "Cmd l' = ToUpper lib (takeWhile (\<lambda>c. c \<noteq> CHR '' '') rest)"
      using parseCommand_Cmd by blast
    then show "Cmd l' = [] \<longleftrightarrow> rest = [] \<or> HasPrefix rest '' ''"
      using token [of rest] by (simp only: ToUpper_Nil_iff)
  qed
  have e: "Cmd l = [] \<longrightarrow>
        trace (dispatch c (Cmd l) l io)
          = trace c @ map (\<lambda>handler. Spawn handler l) (handlers c [] @ handlers c ''*'')"
    by (simp add: dispatch_other_trace)
  from a b c d e show ?thesis by simp
qed

theorem C8_malformed_line_empty_command_witness:
  "CHR '' '' \<notin> set ''prefix''
   \<and> parseLine example_unicode '':prefix'' = Inr \<lparr>Nick = [], Src = [], Cmd = [], Args = []\<rparr>
   \<and> handlers example_client [] = []
   \<and> trace (dispatch example_client [] \<lparr>Nick = [], Src = [], Cmd = [], Args = []\<rparr> IoOk)
     = [Spawn 2 \<lparr>Nick = [], Src = [], Cmd = [], Args = []\<rparr>]
   \<and> \<not> HasPrefix '' NOTICE x'' '':''
   \<and> parseLine example_unicode '' NOTICE x'' = Inr \<lparr>Nick = [], Src = [], Cmd = [], Args = [''NOTICE'', ''x'']\<rparr>
   \<and> parseLine example_unicode '':srv  001 me'' = Inr \<lparr>Nick = [], Src = ''srv'', Cmd = [], Args = [''001'', ''me'']\<rparr>"
proof -
  let ?l = "\<lparr>Nick = [], Src = [], Cmd = [], Args = []\<rparr>"
  have p: "parseLine example_unicode '':prefix'' = Inr ?l"
    using C8_malformed_line_empty_command
      [where lib = example_unicode and src = "''prefix''", THEN conjunct2, THEN conjunct1]
    by simp
  have h: "handlers example_client [] = []" and t: "trace example_client = []"
    by (simp_all add: example_client_def HandleFunc_def SetDebugSend_def Client_def)
  have w: "handlers example_client ''*'' = [2]"
    by (simp add: example_client_def HandleFunc_def SetDebugSend_def Client_def)
  have d: "trace (dispatch example_client [] ?l IoOk) = [Spawn 2 ?l]"
    using C8_malformed_line_empty_command
      [where lib = example_unicode and raw = "'':prefix''" and l = ?l and c = example_client
         and io = IoOk] p h t w
    by simp
  have q1: "parseLine example_unicode '' NOTICE x'' = Inr \<lparr>Nick = [], Src = [], Cmd = [], Args = [''NOTICE'', ''x'']\<rparr>"
    by (simp add: parseLine_def parseCommand_def HasPrefix_def ToUpper_def is_ascii_def)
  have q2: "parseLine example_unicode '':srv  001 me'' = Inr \<lparr>Nick = [], Src = ''srv'', Cmd = [], Args = [''001'', ''me'']\<rparr>"
    by (simp add: parseLine_def parseCommand_def HasPrefix_def ToUpper_def is_ascii_def slice_from_def)
  have "Cmd \<lparr>Nick = [], Src = [], Cmd = [], Args = [''NOTICE'', ''x'']\<rparr> = []
        \<longleftrightarrow> '' NOTICE x'' = [] \<or> HasPrefix '' NOTICE x'' '' ''"
    using C8_malformed_line_empty_command
      [where lib = example_unicode and raw = "'' NOTICE x''"
         and l = "\<lparr>Nick = [], Src = [], Cmd = [], Args = [''NOTICE'', ''x'']\<rparr>"] q1
    by (simp add: HasPrefix_def)
  moreover have "Cmd \<lparr>Nick = [], Src = ''srv'', Cmd = [], Args = [''001'', ''me'']\<rparr> = []
        \<longleftrightarrow> '' 001 me'' = [] \<or> HasPrefix '' 001 me'' '' ''"
    using C8_malformed_line_empty_command
      [where lib = example_unicode and src = "''srv''" and rest = "'' 001 me''"
         and l' = "\<lparr>Nick = [], Src = ''srv'', Cmd = [], Args = [''001'', ''me'']\<rparr>"] q2
    by (simp add: HasPrefix_def)
  ultimately show ?thesis
    using p h d q1 q2 by (simp add: HasPrefix_def)
qed

section \<open>Properties of the read loop and of \<^verbatim>\<open>Quit\<close>\<close>

lemma example_conn_fields:
  "connected example_conn" "\<not> quit_closed example_conn" "\<not> done_closed example_conn"
  "conn example_conn = Some Open" "debugSendFn example_conn = Some 0"
  "handlers example_conn ''PING'' = [1]" "handlers example_conn ''*'' = [2]"
  "handlers example_conn ''DISCONNECTED'' = [3]"
  by (simp_all add: example_conn_def example_client_def Connect_def HandleFunc_def
      SetDebugSend_def Client_def Let_def emit_def)

lemma readLoop_deferred_result:
  "readLoop_deferred c =
     (if done_closed c then Inl CloseOfClosedChannel
      else Inr (c\<lparr>connected := False, done_closed := True,
                  trace := trace c @ SetConnected False
                    # map (\<lambda>handler. Spawn handler DISCONNECTED_line)
                        (handlers c ''DISCONNECTED'' @ handlers c ''*'')
                    @ [CloseDone]\<rparr>))"
  by (simp add: readLoop_deferred_def dispatch_def emit_def)

lemma loop_exit_result:
  "loop_exit c =
     (if done_closed c then
        Crashed CloseOfClosedChannel
          (c\<lparr>connected := False,
             trace := trace c @ SetConnected False
               # map (\<lambda>handler. Spawn handler DISCONNECTED_line)
                   (handlers c ''DISCONNECTED'' @ handlers c ''*'')\<rparr>)
      else
        Exited
          (c\<lparr>connected := False, done_closed := True,
             trace := trace c @ SetConnected False
               # map (\<lambda>handler. Spawn handler DISCONNECTED_line)
                   (handlers c ''DISCONNECTED'' @ handlers c ''*'')
               @ [CloseDone]\<rparr>))"
  by (simp add: loop_exit_def readLoop_deferred_result) (simp add: dispatch_def emit_def)

lemma dispatch_trace_extends: "\<exists>evs. trace (dispatch c event line io) = trace c @ evs"
  by (cases "event = ''PING''") (simp_all add: dispatch_PING_trace dispatch_other_trace sendRaw_trace)

text \<open>
  The shape of every way out of the loop: the events of the loop so far, then the flag
  is cleared, then the DISCONNECTED line is dispatched, then \<^verbatim>\<open>done\<close> is closed.
\<close>

lemma readLoop_exit_shape:
  "(\<exists>c'. readLoop lib c evs = Running c')
   \<or> (\<exists>mid c'.
        readLoop lib c evs = (if done_closed c then Crashed CloseOfClosedChannel c' else Exited c')
        \<and> trace c' = trace c @ mid @ SetConnected False
              # map (\<lambda>handler. Spawn handler DISCONNECTED_line)
                  (handlers c ''DISCONNECTED'' @ handlers c ''*'')
              @ (if done_closed c then [] else [CloseDone])
        \<and> \<not> connected c' \<and> done_closed c' \<and> handlers c' = handlers c)"
proof (induction evs arbitrary: c)
  case Nil
  show ?case
    by (cases "quit_closed c") (auto simp: loop_exit_result)
next
  case (Cons ev evs)
  have exit_now: "\<exists>mid c'.
        loop_exit c = (if done_closed c then Crashed CloseOfClosedChannel c' else Exited c')
        \<and> trace c' = trace c @ mid @ SetConnected False
              # map (\<lambda>handler. Spawn handler DISCONNECTED_line)
                  (handlers c ''DISCONNECTED'' @ handlers c ''*'')
              @ (if done_closed c then [] else [CloseDone])
        \<and> \<not> connected c' \<and> done_closed c' \<and> handlers c' = handlers c"
    by (rule exI [of _ "[]"]) (auto simp: loop_exit_result)
  have step: "(\<exists>c'. readLoop lib c2 evs = Running c')
     \<or> (\<exists>mid c'.
        readLoop lib c2 evs = (if done_closed c then Crashed CloseOfClosedChannel c' else Exited c')
        \<and> trace c' = trace c @ mid @ SetConnected False
              # map (\<lambda>handler. Spawn handler DISCONNECTED_line)
                  (handlers c ''DISCONNECTED'' @ handlers c ''*'')
              @ (if done_closed c then [] else [CloseDone])
        \<and> \<not> connected c' \<and> done_closed c' \<and> handlers c' = handlers c)"
    if same: "handlers c2 = handlers c" "done_closed c2 = done_closed c"
      and ext: "\<exists>more. trace c2 = trace c @ more" for c2
  proof -
    from ext obtain more where more: "trace c2 = trace c @ more" by blast
    from Cons.IH [of c2] show ?thesis
    proof
      assume "\<exists>c'. readLoop lib c2 evs = Running c'"
      then show ?thesis by blast
    next
      assume "\<exists>mid c'.
        readLoop lib c2 evs = (if done_closed c2 then Crashed CloseOfClosedChannel c' else Exited c')
        \<and> trace c' = trace c2 @ mid @ SetConnected False
              # map (\<lambda>handler. Spawn handler DISCONNECTED_line)
                  (handlers c2 ''DISCONNECTED'' @ handlers c2 ''*'')
              @ (if done_closed c2 then [] else [CloseDone])
        \<and> \<not> connected c' \<and> done_closed c' \<and> handlers c' = handlers c2"
      then obtain mid c' where
        r: "readLoop lib c2 evs = (if done_closed c2 then Crashed CloseOfClosedChannel c' else Exited c')"
        and t: "trace c' = trace c2 @ mid @ SetConnected False
              # map (\<lambda>handler. Spawn handler DISCONNECTED_line)
                  (handlers c2 ''DISCONNECTED'' @ handlers c2 ''*'')
              @ (if done_closed c2 then [] else [CloseDone])"
        and o: "\<not> connected c'" "done_closed c'" "handlers c' = handlers c2"
        by blast
      have "trace c' = trace c @ (more @ mid) @ SetConnected False
              # map (\<lambda>handler. Spawn handler DISCONNECTED_line)
                  (handlers c ''DISCONNECTED'' @ handlers c ''*'')
              @ (if done_closed c then [] else [CloseDone])"
        using t more same by simp
      with r o same show ?thesis by metis
    qed
  qed
  show ?case
  proof (cases "quit_closed c")
    case True
    with exit_now show ?thesis by simp
  next
    case False
    show ?thesis
    proof (cases ev)
      case ReadTimeout
      with False step [of c] show ?thesis by simp
    next
      case ReadError
      with False exit_now show ?thesis by simp
    next
      case QuitCloses
      with False step [of "c\<lparr>quit_closed := True\<rparr>"] show ?thesis by simp
    next
      case (ReadLine got io)
      show ?thesis
      proof (cases "TrimSpace lib got = []")
        case True
        with False ReadLine step [of c] show ?thesis by simp
      next
        case nonempty: False
        obtain parsed where p: "parseLine lib (TrimSpace lib got) = Inr parsed"
          using parseLine_total by blast
        have "\<exists>more. trace (dispatch c (Cmd parsed) parsed io) = trace c @ more"
          by (rule dispatch_trace_extends)
        with False ReadLine nonempty p step [of "dispatch c (Cmd parsed) parsed io"]
        show ?thesis by (simp add: Let_def)
      qed
    qed
  qed
qed

text \<open>
  C5 (counterexample). A connection is connected, its read loop ends on a read error
  (raising the completion signal), and \<^verbatim>\<open>Connect\<close> is called on it again, which does not
  renew \<^verbatim>\<open>done\<close>. When the second read loop ends, the flag is cleared and the DISCONNECTED
  line is dispatched, but the completion signal is not raised after that: closing the
  closed channel panics, and the trace ends with the dispatch.
\<close>

theorem C5_counterexample:
  "readLoop example_unicode example_conn [ReadError] = Exited example_disconnected
   \<and> Connect example_disconnected DialOk IoOk IoOk = (None, example_reconnected)
   \<and> readLoop example_unicode example_reconnected [ReadError]
       = Crashed CloseOfClosedChannel example_second_exit
   \<and> trace example_second_exit
       = trace example_reconnected
         @ [SetConnected False, Spawn 3 DISCONNECTED_line, Spawn 2 DISCONNECTED_line]"
proof -
  have first: "readLoop example_unicode example_conn [ReadError] = Exited example_disconnected"
    unfolding example_disconnected_def
    by (simp add: example_conn_fields loop_exit_result)
  have d: "done_closed example_disconnected" "\<not> quit_closed example_disconnected"
    "handlers example_disconnected = handlers example_conn"
    unfolding example_disconnected_def
    by (simp_all add: example_conn_fields loop_exit_result)
  have r: "done_closed example_reconnected" "\<not> quit_closed example_reconnected"
    "handlers example_reconnected = handlers example_conn"
    unfolding example_reconnected_def using d
    by (simp_all add: Connect_def Let_def emit_def)
  have second: "readLoop example_unicode example_reconnected [ReadError]
       = Crashed CloseOfClosedChannel example_second_exit"
    unfolding example_second_exit_def using r by (simp add: loop_exit_result)
  have "trace example_second_exit
       = trace example_reconnected
         @ [SetConnected False, Spawn 3 DISCONNECTED_line, Spawn 2 DISCONNECTED_line]"
    unfolding example_second_exit_def using r
    by (simp add: loop_exit_result example_conn_fields)
  moreover have "Connect example_disconnected DialOk IoOk IoOk = (None, example_reconnected)"
    unfolding example_reconnected_def by (simp add: Connect_def Let_def)
  ultimately show ?thesis using first second by simp
qed

text \<open>
  C5 (amended). Whenever the read loop of a connection whose completion signal has not
  been raised before (the first read loop of the connection) ends, for any cause, it ends
  by returning and the last events of the connection are, in this order: the
  \<^verbatim>\<open>connected\<close> flag is set to false; one goroutine is started, with the synthetic
  DISCONNECTED line, for each handler registered for DISCONNECTED and then for each
  wildcard handler (the dispatcher's normal path); \<^verbatim>\<open>done\<close> is closed. Afterwards
  \<^verbatim>\<open>Connected\<close> is false and the completion signal is raised.
\<close>

theorem C5_readLoop_exit_order:
  assumes "\<not> done_closed c" and "\<forall>c'. readLoop lib c evs \<noteq> Running c'"
  shows "\<exists>mid c'.
     readLoop lib c evs = Exited c'
     \<and> trace c' = trace c @ mid @ SetConnected False
           # map (\<lambda>handler. Spawn handler DISCONNECTED_line)
               (handlers c ''DISCONNECTED'' @ handlers c ''*'')
           @ [CloseDone]
     \<and> \<not> Connected c' \<and> done_closed c'"
  using readLoop_exit_shape [of lib c evs] assms unfolding Connected_def by auto

theorem C5_readLoop_exit_order_witness:
  "\<not> done_closed example_conn
   \<and> (\<forall>c'. readLoop example_unicode example_conn
              [ReadLine ''PING :x'' IoOk, ReadTimeout, QuitCloses, ReadTimeout]
          \<noteq> Running c')
   \<and> (\<exists>mid c'.
        readLoop example_unicode example_conn
          [ReadLine ''PING :x'' IoOk, ReadTimeout, QuitCloses, ReadTimeout]
          = Exited c'
        \<and> trace c' = trace example_conn @ mid
              @ [SetConnected False, Spawn 3 DISCONNECTED_line, Spawn 2 DISCONNECTED_line, CloseDone]
        \<and> \<not> Connected c' \<and> done_closed c')"
proof -
  let ?evs = "[ReadLine ''PING :x'' IoOk, ReadTimeout, QuitCloses, ReadTimeout]"
  have p: "parseLine example_unicode ''PING :x''
           = Inr \<lparr>Nick = [], Src = [], Cmd = ''PING'', Args = [''x'']\<rparr>"
    by (simp add: parseLine_def parseCommand_def HasPrefix_def slice_from_def ToUpper_def
        is_ascii_def upper_byte_def)
  have t: "TrimSpace example_unicode ''PING :x'' = ''PING :x''"
    by (simp add: TrimSpace_def is_ascii_def is_space_def)
  have q: "\<not> quit_closed example_conn" and d: "\<not> done_closed example_conn"
    and h: "handlers example_conn ''DISCONNECTED'' = [3]" "handlers example_conn ''*'' = [2]"
    by (simp_all add: example_conn_fields)
  have run: "\<forall>c'. readLoop example_unicode example_conn ?evs \<noteq> Running c'"
    using q d by (simp add: t p loop_exit_result)
  from C5_readLoop_exit_order [OF d run] d h run show ?thesis
    by simp
qed

lemma Quit_result:
  assumes "\<not> quit_closed c"
  shows "Quit c message (Answers io) w =
     (let c1 = snd (sendRaw c (if message = [] then ''QUIT'' else ''QUIT :'' @ message) io);
          exits = (w = LoopExits \<and> \<not> done_closed c)
      in QuitReturns
           (c\<lparr>connected := (if exits then False else connected c),
              done_closed := (if exits then True else done_closed c),
              quit_closed := True,
              conn := (if conn c = None then None else Some Closed),
              trace := trace c1 @ [CloseQuit]
                @ (if exits then
                     SetConnected False
                     # map (\<lambda>handler. Spawn handler DISCONNECTED_line)
                         (handlers c ''DISCONNECTED'' @ handlers c ''*'')
                     @ [CloseDone]
                   else [])
                @ (if conn c = None then [] else [ConnClose])\<rparr>))"
proof -
  define c1 where "c1 = snd (sendRaw c (if message = [] then ''QUIT'' else ''QUIT :'' @ message) io)"
  have c1: "c1 = c\<lparr>trace := trace c1\<rparr>"
    unfolding c1_def by (rule sendRaw_state)
  have nc: "snd (sendRaw c line io') = c" if "\<not> connected c" for line io'
    using that by (simp add: sendRaw_def)
  have q: "Quit c message (Answers io) w =
     (if quit_closed c1 then QuitPanics CloseOfClosedChannel
      else
        (case (if done_closed (emit (c1\<lparr>quit_closed := True\<rparr>) [CloseQuit])
               then Inr (emit (c1\<lparr>quit_closed := True\<rparr>) [CloseQuit])
               else (case w of TimerFires \<Rightarrow> Inr (emit (c1\<lparr>quit_closed := True\<rparr>) [CloseQuit])
                     | LoopExits \<Rightarrow> readLoop_deferred (emit (c1\<lparr>quit_closed := True\<rparr>) [CloseQuit]))) of
           Inl p \<Rightarrow> QuitPanics p
         | Inr c3 \<Rightarrow>
             (case conn c3 of
                None \<Rightarrow> QuitReturns c3
              | Some t \<Rightarrow> QuitReturns (emit (c3\<lparr>conn := Some Closed\<rparr>) [ConnClose]))))"
    unfolding c1_def by (cases "connected c"; cases w) (simp_all add: Quit_def Let_def nc)
  have f: "quit_closed c1 = quit_closed c" "done_closed c1 = done_closed c" "conn c1 = conn c"
    "handlers c1 = handlers c" "connected c1 = connected c"
    unfolding c1_def by simp_all
  show ?thesis
    unfolding Let_def c1_def [symmetric] q
    using assms f
    by (subst (1 2 3 4 5 6) c1)
      (cases w; cases "conn c"; cases "done_closed c";
        simp add: emit_def readLoop_deferred_result)
qed

lemma Quit_hangs: "connected c \<Longrightarrow> Quit c message NeverReturns w = QuitHangs"
  by (simp add: Quit_def)

lemma Quit_not_connected:
  "\<not> connected c \<Longrightarrow> Quit c message send w = Quit c message (Answers IoOk) w"
  by (simp add: Quit_def)

lemma Quit_again:
  assumes "quit_closed c" and "connected c \<longrightarrow> send \<noteq> NeverReturns"
  shows "Quit c message send w = QuitPanics CloseOfClosedChannel"
  using assms by (cases send; cases "connected c") (simp_all add: Quit_def)

text \<open>
  The first \<^verbatim>\<open>Quit\<close> on a connection, when its send returns: the events are, in order,
  the one send of \<^verbatim>\<open>QUIT\<close> (of \<^verbatim>\<open>QUIT :<reason>\<close> for a non-empty reason), the close of
  \<^verbatim>\<open>quit\<close>, the read loop's exit if it happens during the wait, and the close of the
  transport if there is one. \<^verbatim>\<open>Quit\<close> does not write the \<^verbatim>\<open>connected\<close> flag itself.
\<close>

lemma Quit_first_call:
  assumes "\<not> quit_closed c"
  shows "\<exists>c'. Quit c message (Answers io) w = QuitReturns c'
     \<and> trace c' =
        (let quitCmd = (if message = [] then ''QUIT'' else ''QUIT :'' @ message) in
         trace c
         @ (if connected c then
              (case debugSendFn c of None \<Rightarrow> [] | Some fn \<Rightarrow> [DebugSend fn quitCmd])
              @ WriteString (quitCmd @ CRLF)
                # (case io of WriteFails msg \<Rightarrow> [] | FlushFails msg \<Rightarrow> [Flush] | IoOk \<Rightarrow> [Flush])
            else [])
         @ [CloseQuit]
         @ (if w = LoopExits \<and> \<not> done_closed c then
              SetConnected False
              # map (\<lambda>handler. Spawn handler DISCONNECTED_line)
                  (handlers c ''DISCONNECTED'' @ handlers c ''*'')
              @ [CloseDone]
            else [])
         @ (if conn c = None then [] else [ConnClose]))
     \<and> quit_closed c'
     \<and> conn c' = (if conn c = None then None else Some Closed)
     \<and> (Connected c' \<longleftrightarrow> connected c \<and> (w = TimerFires \<or> done_closed c))"
proof -
  have "w = TimerFires \<or> w = LoopExits" by (cases w) auto
  then show ?thesis
    unfolding Quit_result [OF assms] Let_def Connected_def
    by (auto simp: sendRaw_trace)
qed

text \<open>
  C3 (failing inputs). On the connected example connection a first \<^verbatim>\<open>Quit\<close>, with the
  send answered and the read loop exiting during the wait, returns and leaves
  \<^verbatim>\<open>Connected\<close> false and the transport closed. A second \<^verbatim>\<open>Quit\<close> on the same connection
  does not return, whatever the outcomes: it panics at \<^verbatim>\<open>close(c.quit)\<close>. And a first
  \<^verbatim>\<open>Quit\<close> whose send never returns (a peer that does not read) never returns either.
\<close>

theorem C3_repeated_Quit_panics:
  "Quit example_conn ''Goodbye!'' (Answers IoOk) LoopExits = QuitReturns example_after_quit
   \<and> \<not> Connected example_after_quit
   \<and> conn example_after_quit = Some Closed
   \<and> Quit example_after_quit ''Goodbye!'' send w = QuitPanics CloseOfClosedChannel
   \<and> Quit example_conn ''Goodbye!'' NeverReturns w = QuitHangs"
proof -
  have q: "\<not> quit_closed example_conn" and c: "connected example_conn"
    by (simp_all add: example_conn_fields)
  have first: "Quit example_conn ''Goodbye!'' (Answers IoOk) LoopExits
               = QuitReturns example_after_quit"
    unfolding example_after_quit_def by (simp add: Quit_result [OF q] Let_def)
  have after: "quit_closed example_after_quit" "\<not> connected example_after_quit"
    "conn example_after_quit = Some Closed"
    unfolding example_after_quit_def
    by (simp_all add: Quit_result [OF q] Let_def example_conn_fields)
  have second: "Quit example_after_quit ''Goodbye!'' send w = QuitPanics CloseOfClosedChannel"
    using after by (intro Quit_again) simp_all
  have hang: "Quit example_conn ''Goodbye!'' NeverReturns w = QuitHangs"
    using c by (rule Quit_hangs)
  from first after second hang show ?thesis
    by (simp add: Connected_def)
qed

text \<open>
  The invariant that the transport exists whenever the flag is set holds for a fresh
  connection and is kept by every operation, so it holds in every state the program
  reaches.
\<close>

lemma connected_has_transport:
  "has_transport (Client config)"
  "has_transport c \<Longrightarrow> has_transport (HandleFunc c event h)"
  "has_transport c \<Longrightarrow> has_transport (SetDebugSend c fn)"
  "has_transport c \<Longrightarrow> has_transport (snd (sendRaw c cmd io))"
  "has_transport c \<Longrightarrow> has_transport (dispatch c event line io)"
  "has_transport (snd (Connect c DialOk io1 io2))"
  "has_transport c \<Longrightarrow> has_transport (snd (Connect c (DialFails msg) io1 io2))"
  "has_transport c \<Longrightarrow> Quit c message send w = QuitReturns c' \<Longrightarrow> has_transport c'"
proof -
  show "has_transport c \<Longrightarrow> Quit c message send w = QuitReturns c' \<Longrightarrow> has_transport c'"
  proof -
    assume h: "has_transport c" and q: "Quit c message send w = QuitReturns c'"
    then have nq: "\<not> quit_closed c"
      by (auto simp: Quit_def Let_def split: if_splits send_outcome.splits)
    from q obtain io where a: "Quit c message (Answers io) w = QuitReturns c'"
      by (cases send; cases "connected c") (auto simp: Quit_def)
    from a h show "has_transport c'"
      unfolding Quit_result [OF nq] Let_def by (auto simp: has_transport_def split: if_splits)
  qed
qed (simp_all add: has_transport_def Client_def HandleFunc_def SetDebugSend_def Connect_def
    Let_def emit_def)

lemma readLoop_has_transport:
  assumes "has_transport c"
  shows "case readLoop lib c evs of
           Running c' \<Rightarrow> has_transport c'
         | Exited c' \<Rightarrow> has_transport c'
         | Crashed p c' \<Rightarrow> has_transport c'"
  using assms
proof (induction evs arbitrary: c)
  case Nil
  then show ?case
    by (simp add: loop_exit_result has_transport_def)
next
  case (Cons ev evs)
  have exit_ok: "case loop_exit c of
           Running c' \<Rightarrow> has_transport c'
         | Exited c' \<Rightarrow> has_transport c'
         | Crashed p c' \<Rightarrow> has_transport c'"
    by (simp add: loop_exit_result has_transport_def)
  show ?case
  proof (cases "quit_closed c")
    case True
    with exit_ok show ?thesis by simp
  next
    case False
    show ?thesis
    proof (cases ev)
      case ReadTimeout
      with False Cons.IH [OF Cons.prems] show ?thesis by simp
    next
      case ReadError
      with False exit_ok show ?thesis by simp
    next
      case QuitCloses
      have "has_transport (c\<lparr>quit_closed := True\<rparr>)"
        using Cons.prems by (simp add: has_transport_def)
      with False QuitCloses Cons.IH show ?thesis by simp
    next
      case (ReadLine got io)
      obtain parsed where p: "parseLine lib (TrimSpace lib got) = Inr parsed"
        using parseLine_total by blast
      have "has_transport (dispatch c (Cmd parsed) parsed io)"
        using Cons.prems by (rule connected_has_transport)
      with False ReadLine p Cons.IH Cons.prems show ?thesis
        by (simp add: Let_def)
    qed
  qed
qed

section \<open>Properties of the channel user lists\<close>

lemma TrimLeft_idem: "TrimLeft (TrimLeft s cutset) cutset = TrimLeft s cutset"
  by (simp add: TrimLeft_def dropWhile_idem)

lemma TrimLeft_no_leading:
  "TrimLeft s cutset \<noteq> [] \<Longrightarrow> hd (TrimLeft s cutset) \<notin> set cutset"
  unfolding TrimLeft_def using hd_dropWhile [of "\<lambda>c. c \<in> set cutset" s] by simp

lemma remdups_snoc:
  "remdups (xs @ [u]) = remdups (filter (\<lambda>x. x \<noteq> u) xs) @ [u]"
  by (induction xs) auto

text \<open>
  The loop keeps an invariant: \<open>cleaned\<close> holds exactly the names of \<open>cleanedList\<close>. Under
  it the result is the list so far, followed by the first occurrences of the new
  non-empty stripped names.
\<close>

lemma cleanUsers_spec:
  assumes "\<forall>name. cleaned name \<longleftrightarrow> name \<in> set acc"
  shows "cleanUsers users cleaned acc =
     acc @ rev (remdups (rev (filter (\<lambda>name. name \<noteq> [] \<and> name \<notin> set acc)
                                (map (\<lambda>user. TrimLeft user ''@+%~&'') users))))"
  using assms
proof (induction users arbitrary: cleaned acc)
  case Nil
  show ?case by simp
next
  case (Cons user users)
  let ?u = "TrimLeft user ''@+%~&''"
  let ?names = "map (\<lambda>user. TrimLeft user ''@+%~&'') users"
  show ?case
  proof (cases "?u \<noteq> [] \<and> \<not> cleaned ?u")
    case False
    then have "?u = [] \<or> ?u \<in> set acc" using Cons.prems by auto
    then show ?thesis
      using False Cons.IH [OF Cons.prems] by (auto simp: Let_def)
  next
    case True
    then have new: "?u \<noteq> []" "?u \<notin> set acc" using Cons.prems by auto
    have inv: "\<forall>name. (cleaned(?u := True)) name \<longleftrightarrow> name \<in> set (acc @ [?u])"
      using Cons.prems by auto
    have flt: "filter (\<lambda>name. name \<noteq> [] \<and> name \<notin> set (acc @ [?u])) ?names
               = filter (\<lambda>name. name \<noteq> ?u) (filter (\<lambda>name. name \<noteq> [] \<and> name \<notin> set acc) ?names)"
      by (auto intro: filter_cong)
    have snoc: "rev (remdups (rev (?u # ys)))
                = ?u # rev (remdups (rev (filter (\<lambda>name. name \<noteq> ?u) ys)))"
      for ys :: "string list"
      by (simp add: remdups_snoc rev_filter)
    have "cleanUsers (user # users) cleaned acc
          = cleanUsers users (cleaned(?u := True)) (acc @ [?u])"
      using True by (simp add: Let_def)
    also have "\<dots> = (acc @ [?u])
        @ rev (remdups (rev (filter (\<lambda>name. name \<noteq> [] \<and> name \<notin> set (acc @ [?u])) ?names)))"
      by (rule Cons.IH [OF inv])
    also have "\<dots> = acc @ ?u
        # rev (remdups (rev (filter (\<lambda>name. name \<noteq> ?u)
                               (filter (\<lambda>name. name \<noteq> [] \<and> name \<notin> set acc) ?names))))"
      by (simp only: flt append_assoc append_Cons append_Nil)
    also have "\<dots> = acc
        @ rev (remdups (rev (?u # filter (\<lambda>name. name \<noteq> [] \<and> name \<notin> set acc) ?names)))"
      by (simp only: snoc)
    also have "?u # filter (\<lambda>name. name \<noteq> [] \<and> name \<notin> set acc) ?names
               = filter (\<lambda>name. name \<noteq> [] \<and> name \<notin> set acc)
                   (map (\<lambda>user. TrimLeft user ''@+%~&'') (user # users))"
      using new by simp
    finally show ?thesis .
  qed
qed

lemma cleanUsers_fresh:
  "cleanUsers users (\<lambda>name. False) [] =
     rev (remdups (rev (filter (\<lambda>name. name \<noteq> [])
                          (map (\<lambda>user. TrimLeft user ''@+%~&'') users))))"
  using cleanUsers_spec [of "\<lambda>name. False" "[]" users] by simp

lemma cleanUsers_clean:
  "distinct (cleanUsers users (\<lambda>name. False) [])"
  "[] \<notin> set (cleanUsers users (\<lambda>name. False) [])"
  "name \<in> set (cleanUsers users (\<lambda>name. False) []) \<Longrightarrow> TrimLeft name ''@+%~&'' = name"
  by (auto simp: cleanUsers_fresh TrimLeft_idem)

lemma cleanUsers_fixpoint:
  assumes "distinct names" and "[] \<notin> set names"
    and "\<forall>name\<in>set names. TrimLeft name ''@+%~&'' = name"
  shows "cleanUsers names (\<lambda>name. False) [] = names"
proof -
  have "map (\<lambda>user. TrimLeft user ''@+%~&'') names = names"
    using assms(3) by (simp add: map_idI)
  moreover have "filter (\<lambda>name. name \<noteq> []) names = names"
    using assms(2) by (auto simp: filter_id_conv)
  moreover have "rev (remdups (rev names)) = names"
    using assms(1) by (simp add: distinct_remdups_id)
  ultimately show ?thesis by (simp add: cleanUsers_fresh)
qed

lemma cleanUsers_idem:
  "cleanUsers (cleanUsers users (\<lambda>name. False) []) (\<lambda>name. False) []
   = cleanUsers users (\<lambda>name. False) []"
  by (rule cleanUsers_fixpoint) (auto simp: cleanUsers_clean)

lemma handleNames_users:
  "channelUsers (handleNames m data) (data_get data ''channel'') =
     Some ((case channelUsers m (data_get data ''channel'') of None \<Rightarrow> [] | Some existing \<Rightarrow> existing)
           @ Split (data_get data ''users'') CHR '' '')"
  by (simp add: handleNames_def Let_def split: option.splits)

lemma handleEndOfNames_users:
  "channelUsers (handleEndOfNames m data) (data_get data ''channel'') =
     map_option (\<lambda>users. cleanUsers users (\<lambda>name. False) [])
       (channelUsers m (data_get data ''channel''))"
  by (simp add: handleEndOfNames_def Let_def split: option.splits)

text \<open>
  C9. Starting with no users recorded for a channel (no entry, or an empty list), two
  NAMES events for the channel followed by one ENDOFNAMES event leave, as the channel's
  user list, the names of both events in order of arrival, each without its leading
  \<^verbatim>\<open>@\<close>, \<^verbatim>\<open>+\<close>, \<^verbatim>\<open>%\<close>, \<^verbatim>\<open>~\<close>, \<^verbatim>\<open>&\<close> characters, without the empty names and with only
  the first occurrence of each name kept (\<open>rev \<circ> remdups \<circ> rev\<close> keeps first
  occurrences). For the users \<^verbatim>\<open>alice bob\<close> and then \<^verbatim>\<open>carol\<close> the list is
  \<^verbatim>\<open>alice\<close>, \<^verbatim>\<open>bob\<close>, \<^verbatim>\<open>carol\<close>.
\<close>

theorem C9_names_accumulate:
  assumes "channelUsers m ch = None \<or> channelUsers m ch = Some []"
    and "data_get d1 ''channel'' = ch" and "data_get d2 ''channel'' = ch"
    and "data_get d3 ''channel'' = ch"
  shows "channelUsers (handleEndOfNames (handleNames (handleNames m d1) d2) d3) ch
         = Some (rev (remdups (rev (filter (\<lambda>name. name \<noteq> [])
                   (map (\<lambda>user. TrimLeft user ''@+%~&'')
                      (Split (data_get d1 ''users'') CHR '' ''
                       @ Split (data_get d2 ''users'') CHR '' ''))))))
     \<and> (data_get d1 ''users'' = ''alice bob'' \<and> data_get d2 ''users'' = ''carol'' \<longrightarrow>
          channelUsers (handleEndOfNames (handleNames (handleNames m d1) d2) d3) ch
          = Some [''alice'', ''bob'', ''carol''])"
proof -
  have one: "channelUsers (handleNames m d1) ch = Some (Split (data_get d1 ''users'') CHR '' '')"
    using handleNames_users [of m d1] assms(1,2) by auto
  have two: "channelUsers (handleNames (handleNames m d1) d2) ch
             = Some (Split (data_get d1 ''users'') CHR '' '' @ Split (data_get d2 ''users'') CHR '' '')"
    using handleNames_users [of "handleNames m d1" d2] assms(3) one by simp
  have three: "channelUsers (handleEndOfNames (handleNames (handleNames m d1) d2) d3) ch
         = Some (cleanUsers (Split (data_get d1 ''users'') CHR '' ''
                             @ Split (data_get d2 ''users'') CHR '' '') (\<lambda>name. False) [])"
    using handleEndOfNames_users [of "handleNames (handleNames m d1) d2" d3] assms(4) two by simp
  have ex: "cleanUsers (Split ''alice bob'' CHR '' '' @ Split ''carol'' CHR '' '') (\<lambda>name. False) []
            = [''alice'', ''bob'', ''carol'']"
    by (simp add: TrimLeft_def)
  show ?thesis
  proof (intro conjI impI)
    show "channelUsers (handleEndOfNames (handleNames (handleNames m d1) d2) d3) ch
         = Some (rev (remdups (rev (filter (\<lambda>name. name \<noteq> [])
                   (map (\<lambda>user. TrimLeft user ''@+%~&'')
                      (Split (data_get d1 ''users'') CHR '' ''
                       @ Split (data_get d2 ''users'') CHR '' ''))))))"
      unfolding three by (simp only: cleanUsers_fresh)
  next
    assume "data_get d1 ''users'' = ''alice bob'' \<and> data_get d2 ''users'' = ''carol''"
    then show "channelUsers (handleEndOfNames (handleNames (handleNames m d1) d2) d3) ch
          = Some [''alice'', ''bob'', ''carol'']"
      unfolding three using ex by simp
  qed
qed

theorem C9_names_accumulate_witness:
  "channelUsers example_model ''#chan'' = None
   \<and> channelUsers
        (handleEndOfNames
          (handleNames
            (handleNames example_model [''channel'' \<mapsto> ''#chan'', ''users'' \<mapsto> ''alice bob''])
            [''channel'' \<mapsto> ''#chan'', ''users'' \<mapsto> ''carol''])
          [''channel'' \<mapsto> ''#chan''])
        ''#chan''
      = Some [''alice'', ''bob'', ''carol'']"
proof -
  let ?d1 = "[''channel'' \<mapsto> ''#chan'', ''users'' \<mapsto> ''alice bob'']"
  let ?d2 = "[''channel'' \<mapsto> ''#chan'', ''users'' \<mapsto> ''carol'']"
  let ?d3 = "[''channel'' \<mapsto> ''#chan'']"
  have none: "channelUsers example_model ''#chan'' = None"
    by (simp add: example_model_def)
  then have a: "channelUsers example_model ''#chan'' = None
                \<or> channelUsers example_model ''#chan'' = Some []"
    by simp
  have d: "data_get ?d1 ''channel'' = ''#chan''" "data_get ?d2 ''channel'' = ''#chan''"
    "data_get ?d3 ''channel'' = ''#chan''"
    by (simp_all add: data_get_def)
  have u: "data_get ?d1 ''users'' = ''alice bob'' \<and> data_get ?d2 ''users'' = ''carol''"
    by (simp add: data_get_def)
  from C9_names_accumulate [OF a d, THEN conjunct2, rule_format, OF u] none
  show ?thesis by simp
qed

text \<open>
  C10. The cleanup of \<^verbatim>\<open>handleEndOfNames\<close> is idempotent: a second ENDOFNAMES event for
  the same channel changes nothing. The list left by one cleanup has no duplicates and
  no empty name, none of its names starts with \<^verbatim>\<open>@\<close>, \<^verbatim>\<open>+\<close>, \<^verbatim>\<open>%\<close>, \<^verbatim>\<open>~\<close> or \<^verbatim>\<open>&\<close>, and the
  cleanup loop maps it to itself.
\<close>

theorem C10_end_of_names_idempotent:
  "handleEndOfNames (handleEndOfNames m data) data = handleEndOfNames m data
   \<and> (\<forall>users. channelUsers (handleEndOfNames m data) (data_get data ''channel'') = Some users \<longrightarrow>
        distinct users
        \<and> (\<forall>name\<in>set users. name \<noteq> [] \<and> hd name \<notin> set ''@+%~&'')
        \<and> cleanUsers users (\<lambda>name. False) [] = users)"
proof (intro conjI allI impI)
  show "handleEndOfNames (handleEndOfNames m data) data = handleEndOfNames m data"
    by (cases "channelUsers m (data_get data ''channel'')")
      (simp_all add: handleEndOfNames_def Let_def cleanUsers_idem)
next
  fix users
  assume "channelUsers (handleEndOfNames m data) (data_get data ''channel'') = Some users"
  then obtain old where u: "users = cleanUsers old (\<lambda>name. False) []"
    by (auto simp: handleEndOfNames_users)
  show "distinct users" unfolding u by (rule cleanUsers_clean)
  show "cleanUsers users (\<lambda>name. False) [] = users" unfolding u by (rule cleanUsers_idem)
  show "\<forall>name\<in>set users. name \<noteq> [] \<and> hd name \<notin> set ''@+%~&''"
  proof
    fix name
    assume n: "name \<in> set users"
    then have ne: "name \<noteq> []" and st: "TrimLeft name ''@+%~&'' = name"
      using cleanUsers_clean(2) [where users = old] cleanUsers_clean(3) [where users = old]
      unfolding u by auto
    from TrimLeft_no_leading [of name "''@+%~&''"] ne st
    show "name \<noteq> [] \<and> hd name \<notin> set ''@+%~&''" by simp
  qed
qed

theorem C10_end_of_names_idempotent_witness:
  "channelUsers (handleEndOfNames example_model_names [''channel'' \<mapsto> ''#chan'']) ''#chan''
     = Some [''alice'', ''bob'', ''carol'']
   \<and> handleEndOfNames (handleEndOfNames example_model_names [''channel'' \<mapsto> ''#chan''])
        [''channel'' \<mapsto> ''#chan'']
     = handleEndOfNames example_model_names [''channel'' \<mapsto> ''#chan'']
   \<and> cleanUsers [''alice'', ''bob'', ''carol''] (\<lambda>name. False) [] = [''alice'', ''bob'', ''carol'']"
proof -
  have r: "channelUsers (handleEndOfNames example_model_names [''channel'' \<mapsto> ''#chan''])
             (data_get [''channel'' \<mapsto> ''#chan''] ''channel'')
           = Some [''alice'', ''bob'', ''carol'']"
    by (simp add: example_model_names_def handleEndOfNames_def data_get_def TrimLeft_def)
  from C10_end_of_names_idempotent [of example_model_names "[''channel'' \<mapsto> ''#chan'']"] r
  show ?thesis
    by (simp add: data_get_def)
qed

end
